theory Spec2Isabelle
  imports Main
begin

section \<open>JavaScript values and vinyl files\<close>

text \<open>
  The plugin (\<^verbatim>\<open>src/index.js\<close>) and the class \<^verbatim>\<open>TaskProxy\<close> (\<^verbatim>\<open>task-proxy.js\<close>) are
  embedded as functions over an explicit state. A leading underscore of a source name
  is written as the prefix \<open>p_\<close> (\<^verbatim>\<open>_memo\<close> is \<open>p_memo\<close>, \<^verbatim>\<open>_flush\<close> is \<open>p_flush\<close>).

  A key getter returns a string, or nothing (\<^verbatim>\<open>undefined\<close>, \<^verbatim>\<open>null\<close>); the same values
  are the keys of the memo \<^verbatim>\<open>Map\<close>.
\<close>

datatype jskey = Undefined | Null | Str string

text \<open>JavaScript truthiness: \<^verbatim>\<open>undefined\<close>, \<^verbatim>\<open>null\<close> and the empty string are falsy.\<close>

fun truthy :: "jskey \<Rightarrow> bool" where
  "truthy (Str s) = (s \<noteq> [])"
| "truthy Undefined = False"
| "truthy Null = False"

datatype error =
    Error string
  | TypeError string
  | RangeError string
  | PluginError string string

fun message :: "error \<Rightarrow> string" where
  "message (Error m) = m"
| "message (TypeError m) = m"
| "message (RangeError m) = m"
| "message (PluginError p m) = m"

datatype jsval = VBool bool | VNum int | VStr string

text \<open>
  The payload of a vinyl file: \<^verbatim>\<open>null\<close>, a buffer (its bytes, as characters) or a
  stream.
\<close>

datatype file_contents = CNull | CBuffer string | CStream

text \<open>
  A vinyl file, with the fields the plugin reads and writes: the path (absent on a
  file made without one), the base directory, the payload, the transient property
  \<^verbatim>\<open>_memoKey\<close> (\<open>Undefined\<close> when the property is absent: the code only reads it with
  \<^verbatim>\<open>datum._memoKey\<close>, which cannot tell the two apart) and the other custom properties
  (\<^verbatim>\<open>ran\<close> in the tests).
\<close>

record vfile =
  path :: "string option"
  base :: string
  contents :: file_contents
  p_memoKey :: jskey
  props :: "(string \<times> jsval) list"

definition isNull :: "vfile \<Rightarrow> bool" where
  "isNull f = (contents f = CNull)"

definition isBuffer :: "vfile \<Rightarrow> bool" where
  "isBuffer f = (case contents f of CBuffer b \<Rightarrow> True | _ \<Rightarrow> False)"

definition isStream :: "vfile \<Rightarrow> bool" where
  "isStream f = (contents f = CStream)"

text \<open>
  \<^verbatim>\<open>file.clone({ contents: false })\<close> of vinyl makes a new file object with the same
  working directory, base, history (so the same path), custom properties and,
  \<^verbatim>\<open>contents\<close> being false, the same buffer. On the fields of \<open>vfile\<close> the copy equals
  the original; what the copy buys the code is a separate object, which a model of
  values has already.
\<close>

definition clone :: "vfile \<Rightarrow> vfile" where
  "clone f = f"

text \<open>
  \<^verbatim>\<open>path.basename\<close> on a POSIX path: the part after the last separator, trailing
  separators dropped. The getter \<^verbatim>\<open>file.basename\<close> and \<^verbatim>\<open>file.relative\<close> of vinyl throw
  on a file with no path, and the setter \<^verbatim>\<open>file.path = p\<close> throws when \<^verbatim>\<open>p\<close> is not a
  string.
\<close>

definition path_basename :: "string \<Rightarrow> string" where
  "path_basename p =
     rev (takeWhile (\<lambda>c. c \<noteq> CHR ''/'') (dropWhile (\<lambda>c. c = CHR ''/'') (rev p)))"

definition basename :: "vfile \<Rightarrow> error + string" where
  "basename f =
     (case path f of
        None \<Rightarrow> Inl (Error ''No path specified! Can not get basename.'')
      | Some p \<Rightarrow> Inr (path_basename p))"

definition has_relative :: "vfile \<Rightarrow> error option" where
  "has_relative f =
     (case path f of
        None \<Rightarrow> Some (Error ''No path specified! Can not get relative.'')
      | Some p \<Rightarrow> None)"

definition set_path :: "string option \<Rightarrow> vfile \<Rightarrow> error + vfile" where
  "set_path p f =
     (case p of
        None \<Rightarrow> Inl (Error ''path should be a string.'')
      | Some s \<Rightarrow> Inr (f\<lparr>path := Some s\<rparr>))"

subsection \<open>helpers.js\<close>

text \<open>
  \<^verbatim>\<open>hash(key)\<close> is the hexadecimal MD5 digest of the key, computed by the \<^verbatim>\<open>crypto\<close>
  module of Node. The digest function is a parameter of the model (\<open>md5\<close> below and
  \<open>H\<close> in every function that derives a key). \<^verbatim>\<open>humanizeBytes\<close> only words the byte
  count of a report; a report is kept with its arguments (\<open>report\<close> below), not its text.
\<close>

definition hash :: "(string \<Rightarrow> string) \<Rightarrow> string \<Rightarrow> string" where
  "hash md5 k = md5 k"

definition fileBytes :: "vfile \<Rightarrow> nat" where
  "fileBytes f =
     (if \<not> isBuffer f then 0
      else (case contents f of CBuffer b \<Rightarrow> length b | _ \<Rightarrow> 0))"

subsection \<open>The memo: a JavaScript Map\<close>

text \<open>
  A \<^verbatim>\<open>Map<string, File[]>\<close> is a list of entries in insertion order, with one entry
  a key: \<^verbatim>\<open>set\<close> replaces the value of a key that is there and appends a new key at
  the end.
\<close>

type_synonym memo_map = "(jskey \<times> vfile list) list"

definition map_get :: "memo_map \<Rightarrow> jskey \<Rightarrow> vfile list option" where
  "map_get m k = map_of m k"

definition map_has :: "memo_map \<Rightarrow> jskey \<Rightarrow> bool" where
  "map_has m k = (map_of m k \<noteq> None)"

fun map_set :: "memo_map \<Rightarrow> jskey \<Rightarrow> vfile list \<Rightarrow> memo_map" where
  "map_set [] k v = [(k, v)]"
| "map_set ((k', v') # m) k v =
     (if k' = k then (k, v) # m else (k', v') # map_set m k v)"

definition map_values :: "memo_map \<Rightarrow> vfile list list" where
  "map_values m = map snd m"

section \<open>index.js: the options\<close>

text \<open>
  An options object (\<^verbatim>\<open>GulpMemoizeOptions\<close>): every property may be absent (\<open>None\<close>).
  Next to the four properties the code reads, the object carries whatever else the
  caller wrote into it; the tests write \<^verbatim>\<open>success\<close> and \<^verbatim>\<open>value\<close>.
\<close>

datatype value_projector = ValueField string | ValueFn "vfile \<Rightarrow> (string \<times> jsval) list"

record gulp_memoize_options =
  key :: "(vfile \<Rightarrow> error + jskey) option"
  verbose :: "bool option"
  memo :: "memo_map option"
  clearMemoOnFlush :: "bool option"
  success :: "(vfile \<Rightarrow> bool) option"
  value_opt :: "value_projector option"

text \<open>\<^verbatim>\<open>buffer.toString('base64')\<close>: the standard alphabet, padded with \<^verbatim>\<open>=\<close>.\<close>

definition b64_char :: "nat \<Rightarrow> char" where
  "b64_char n =
     ''ABCDEFGHIJKLMNOPQRSTUVWXYZabcdefghijklmnopqrstuvwxyz0123456789+/'' ! (n mod 64)"

fun base64 :: "nat list \<Rightarrow> string" where
  "base64 (a # b # c # r) =
     [b64_char (a div 4), b64_char ((a mod 4) * 16 + b div 16),
      b64_char ((b mod 16) * 4 + c div 64), b64_char (c mod 64)] @ base64 r"
| "base64 [a, b] =
     [b64_char (a div 4), b64_char ((a mod 4) * 16 + b div 16),
      b64_char ((b mod 16) * 4), CHR ''='']"
| "base64 [a] = [b64_char (a div 4), b64_char ((a mod 4) * 16), CHR ''='', CHR ''='']"
| "base64 [] = []"

definition toString_base64 :: "string \<Rightarrow> string" where
  "toString_base64 b = base64 (map of_char b)"

text \<open>
  \<^verbatim>\<open>defaultKey\<close>: \<^verbatim>\<open>file.contents.toString('base64')\<close>. On \<^verbatim>\<open>null\<close> contents the property
  access throws; a stream object answers \<^verbatim>\<open>toString\<close> with the default of every
  object.
\<close>

definition defaultKey :: "vfile \<Rightarrow> error + jskey" where
  "defaultKey f =
     (case contents f of
        CNull \<Rightarrow> Inl (TypeError ''Cannot read properties of null (reading toString)'')
      | CBuffer b \<Rightarrow> Inr (Str (toString_base64 b))
      | CStream \<Rightarrow> Inr (Str ''[object Object]''))"

text \<open>
  \<^verbatim>\<open>plugin.defaultOptions\<close> as the module sets it. The object is mutable (the tests
  switch \<^verbatim>\<open>clearMemoOnFlush\<close> off, and its memo fills up), so \<open>plugin\<close> takes the
  defaults of the moment as its first argument.
\<close>

definition defaultOptions :: gulp_memoize_options where
  "defaultOptions =
     \<lparr> key = Some defaultKey, verbose = Some False, memo = Some [],
       clearMemoOnFlush = Some True, success = None, value_opt = None \<rparr>"

definition empty_options :: gulp_memoize_options where
  "empty_options =
     \<lparr> key = None, verbose = None, memo = None, clearMemoOnFlush = None,
       success = None, value_opt = None \<rparr>"

text \<open>
  The object spread \<^verbatim>\<open>{ ...a, ...b }\<close>: every property present in \<open>b\<close> replaces the
  one of \<open>a\<close>.
\<close>

definition spread :: "gulp_memoize_options \<Rightarrow> gulp_memoize_options \<Rightarrow> gulp_memoize_options" where
  "spread a b =
     \<lparr> key = (case key b of Some v \<Rightarrow> Some v | None \<Rightarrow> key a),
       verbose = (case verbose b of Some v \<Rightarrow> Some v | None \<Rightarrow> verbose a),
       memo = (case memo b of Some v \<Rightarrow> Some v | None \<Rightarrow> memo a),
       clearMemoOnFlush =
         (case clearMemoOnFlush b of Some v \<Rightarrow> Some v | None \<Rightarrow> clearMemoOnFlush a),
       success = (case success b of Some v \<Rightarrow> Some v | None \<Rightarrow> success a),
       value_opt = (case value_opt b of Some v \<Rightarrow> Some v | None \<Rightarrow> value_opt a) \<rparr>"

section \<open>The shared task and the state of a TaskProxy\<close>

text \<open>
  The task is an event emitter owned by the caller. Of it the model keeps the
  subscriber ceiling \<^verbatim>\<open>_maxListeners\<close> (\<open>None\<close> while unset), the listeners in the
  order they were added, whether \<^verbatim>\<open>_flush\<close> is a function, the \<^verbatim>\<open>cacheable\<close> object and
  how many times \<^verbatim>\<open>_patchTask\<close> has wrapped \<^verbatim>\<open>_transform\<close>.

  The three closures \<^verbatim>\<open>onError\<close>, \<^verbatim>\<open>onTransformed\<close> and \<^verbatim>\<open>onData\<close> of \<^verbatim>\<open>_runTask\<close> are named by
  the signals emitter they close over (its number in \<open>signals\<close>) and, for \<^verbatim>\<open>onData\<close>,
  the key. \<open>Foreign\<close> is a listener somebody else keeps on the task.
\<close>

datatype listener = OnError nat | OnTransformed nat | OnData nat jskey | Foreign nat

record task_t =
  p_maxListeners :: "nat option"
  listeners :: "listener list"
  has_flush :: bool
  cacheable :: "gulp_memoize_options option"
  patches :: nat

text \<open>
  The listeners on a signals emitter: the three of \<^verbatim>\<open>each\<close> (on \<^verbatim>\<open>error\<close>, \<^verbatim>\<open>file\<close> and
  \<^verbatim>\<open>done\<close>) and the \<^verbatim>\<open>cache\<close> listener of \<^verbatim>\<open>_runTaskAndRemember\<close>, which closes over the
  key.
\<close>

datatype handler = EachError | EachFile | EachDone | Remember jskey

text \<open>
  The two closures pushed on \<^verbatim>\<open>_listenerRemovers\<close>: the one of \<^verbatim>\<open>processFile\<close> and
  the one of \<^verbatim>\<open>_runTask\<close>.
\<close>

datatype remover = RemoveSignals nat | DetachRoute nat jskey

text \<open>
  What the proxy does, in order: files pushed downstream, calls of the stream
  callback \<^verbatim>\<open>next\<close>, writes into the task, the call of the task's \<^verbatim>\<open>_flush\<close>, calls of
  the key getter, the reports (with their arguments, not their text) and the two
  steps of the cleanup in \<^verbatim>\<open>_flush\<close>: the call \<^verbatim>\<open>remove()\<close> of a remover and the call
  \<^verbatim>\<open>this._memo.clear()\<close>. The order of the trace is the order of the calls in the
  source.
\<close>

datatype report = ReportRemembered vfile nat | ReportRestored vfile vfile | ReportTotal nat nat

datatype effect =
    Push vfile
  | Next "error option" "vfile option"
  | TaskWrite vfile
  | TaskFlush
  | KeyCall vfile
  | Log report
  | Remove remover
  | MemoClear

text \<open>
  The fields of \<^verbatim>\<open>TaskProxy\<close>, the store of the signals emitters made so far (an
  emitter is its list of listeners) and the trace of effects.
\<close>

record task_proxy =
  task :: task_t
  options :: gulp_memoize_options
  p_memo :: memo_map
  p_memoBytes :: nat
  p_listenerRemovers :: "remover list"
  p_restoredCount :: nat
  signals :: "handler list list"
  trace :: "effect list"

definition out :: "effect \<Rightarrow> task_proxy \<Rightarrow> task_proxy" where
  "out e tp = tp\<lparr>trace := trace tp @ [e]\<rparr>"

subsection \<open>Event emitters\<close>

definition emitter :: "nat \<Rightarrow> task_proxy \<Rightarrow> handler list" where
  "emitter sid tp = (if sid < length (signals tp) then signals tp ! sid else [])"

definition is_cache :: "handler \<Rightarrow> bool" where
  "is_cache h = (case h of Remember k \<Rightarrow> True | _ \<Rightarrow> False)"

definition listenerCount_cache :: "nat \<Rightarrow> task_proxy \<Rightarrow> nat" where
  "listenerCount_cache sid tp = length (filter is_cache (emitter sid tp))"

definition removeAllListeners :: "nat \<Rightarrow> task_proxy \<Rightarrow> task_proxy" where
  "removeAllListeners sid tp = tp\<lparr>signals := (signals tp)[sid := []]\<rparr>"

text \<open>\<^verbatim>\<open>signals.emit('file', f)\<close>: the listener of \<^verbatim>\<open>each\<close> pushes the file.\<close>

definition emit_file :: "nat \<Rightarrow> vfile \<Rightarrow> task_proxy \<Rightarrow> task_proxy" where
  "emit_file sid f tp =
     tp\<lparr>trace := trace tp @
        concat (map (\<lambda>h. case h of EachFile \<Rightarrow> [Push f] | _ \<Rightarrow> []) (emitter sid tp))\<rparr>"

text \<open>\<^verbatim>\<open>signals.emit('done')\<close>: the listener of \<^verbatim>\<open>each\<close> calls \<^verbatim>\<open>next(null)\<close>.\<close>

definition emit_done :: "nat \<Rightarrow> task_proxy \<Rightarrow> task_proxy" where
  "emit_done sid tp =
     tp\<lparr>trace := trace tp @
        concat (map (\<lambda>h. case h of EachDone \<Rightarrow> [Next None None] | _ \<Rightarrow> []) (emitter sid tp))\<rparr>"

text \<open>
  \<^verbatim>\<open>signals.emit('error', err)\<close>: the listener of \<^verbatim>\<open>each\<close> calls \<^verbatim>\<open>next\<close> with a
  \<^verbatim>\<open>PluginError\<close>; an emitter with no \<^verbatim>\<open>error\<close> listener throws the error.
\<close>

definition emit_error :: "nat \<Rightarrow> error \<Rightarrow> task_proxy \<Rightarrow> error option \<times> task_proxy" where
  "emit_error sid err tp =
     (if EachError \<notin> set (emitter sid tp) then (Some err, tp)
      else (None, tp\<lparr>trace := trace tp @
        concat (map (\<lambda>h. case h of
                       EachError \<Rightarrow> [Next (Some (PluginError ''gulp-memoize'' (message err))) None]
                     | _ \<Rightarrow> []) (emitter sid tp))\<rparr>))"

text \<open>
  \<^verbatim>\<open>emitter.removeListener\<close> takes out the instance added last;
  \<^verbatim>\<open>emitter.setMaxListeners(n)\<close> sets the ceiling.
\<close>

definition removeListener :: "listener \<Rightarrow> task_t \<Rightarrow> task_t" where
  "removeListener l t = t\<lparr>listeners := rev (remove1 l (rev (listeners t)))\<rparr>"

definition setMaxListeners :: "nat \<Rightarrow> task_t \<Rightarrow> task_t" where
  "setMaxListeners n t = t\<lparr>p_maxListeners := Some n\<rparr>"

section \<open>task-proxy.js\<close>

text \<open>
  A method of \<^verbatim>\<open>TaskProxy\<close> takes the state and returns the state it leaves. A
  method that can throw returns the exception too (\<open>Some e\<close>), with the state as it
  is when the exception leaves the method.
\<close>

definition p_patchTask :: "task_t \<Rightarrow> task_t" where
  "p_patchTask t = t\<lparr>patches := Suc (patches t)\<rparr>"

text \<open>
  The constructor. \<^verbatim>\<open>this.options.memo || new Map()\<close> is the injected memo or an
  empty one; the loop over \<^verbatim>\<open>this._memo.values()\<close> adds, cell by cell, the
  \<^verbatim>\<open>reduce\<close> of \<^verbatim>\<open>fileBytes\<close> over the cell.
\<close>

definition TaskProxy :: "task_t \<Rightarrow> gulp_memoize_options \<Rightarrow> task_proxy" where
  "TaskProxy t inputOptions =
     (let m = (case memo inputOptions of Some m \<Rightarrow> m | None \<Rightarrow> []) in
      \<lparr> task = p_patchTask t,
        options = inputOptions,
        p_memo = m,
        p_memoBytes =
          foldl (\<lambda>bytes cell. bytes + foldl (\<lambda>acc f. acc + fileBytes f) 0 cell) 0 (map_values m),
        p_listenerRemovers = [],
        p_restoredCount = 0,
        signals = [],
        trace = [] \<rparr>)"

text \<open>
  \<^verbatim>\<open>_getFileKey\<close>: the key getter is called (a missing getter is a \<^verbatim>\<open>TypeError\<close>, a
  getter that throws or rejects passes its error on); a truthy key is hashed, a falsy
  one is returned as it is.
\<close>

definition p_getFileKey ::
  "(string \<Rightarrow> string) \<Rightarrow> vfile \<Rightarrow> task_proxy \<Rightarrow> (error + jskey) \<times> task_proxy" where
  "p_getFileKey H f tp =
     (case key (options tp) of
        None \<Rightarrow> (Inl (TypeError ''this.options.key is not a function''), tp)
      | Some getKey \<Rightarrow>
          (case getKey f of
             Inl e \<Rightarrow> (Inl e, out (KeyCall f) tp)
           | Inr k \<Rightarrow>
               (Inr (if truthy k then (case k of Str s \<Rightarrow> Str (hash H s) | _ \<Rightarrow> k) else k),
                out (KeyCall f) tp)))"

definition p_reportRemembered :: "vfile \<Rightarrow> task_proxy \<Rightarrow> error option \<times> task_proxy" where
  "p_reportRemembered memoFile tp =
     (case has_relative memoFile of
        Some e \<Rightarrow> (Some e, tp)
      | None \<Rightarrow> (None, out (Log (ReportRemembered memoFile (p_memoBytes tp))) tp))"

definition p_reportRestored :: "vfile \<Rightarrow> vfile \<Rightarrow> task_proxy \<Rightarrow> error option \<times> task_proxy" where
  "p_reportRestored memoFile inputFile tp =
     (case has_relative memoFile of
        Some e \<Rightarrow> (Some e, tp)
      | None \<Rightarrow>
          (case has_relative inputFile of
             Some e \<Rightarrow> (Some e, tp)
           | None \<Rightarrow> (None, out (Log (ReportRestored memoFile inputFile)) tp)))"

definition p_reportTotal :: "task_proxy \<Rightarrow> task_proxy" where
  "p_reportTotal tp = out (Log (ReportTotal (p_restoredCount tp) (p_memoBytes tp))) tp"

text \<open>
  \<^verbatim>\<open>_remember\<close>. \<^verbatim>\<open>this._memo.has(memoKey)\<close> holds when \<^verbatim>\<open>get\<close> finds a cell (so the
  inner \<open>None\<close> below does not arise), and \<^verbatim>\<open>push\<close> on the cell found is the cell with
  the copy at its end. The report, when \<^verbatim>\<open>verbose\<close> is set, comes after the memo and the
  counter are updated.
\<close>

definition p_remember :: "jskey \<Rightarrow> vfile \<Rightarrow> task_proxy \<Rightarrow> error option \<times> task_proxy" where
  "p_remember k memoFile tp =
     (let fileCopy = clone memoFile;
          m = (if map_has (p_memo tp) k
               then (case map_get (p_memo tp) k of
                       Some cell \<Rightarrow> map_set (p_memo tp) k (cell @ [fileCopy])
                     | None \<Rightarrow> p_memo tp)
               else map_set (p_memo tp) k [fileCopy]);
          tp1 = tp\<lparr>p_memo := m, p_memoBytes := p_memoBytes tp + fileBytes fileCopy\<rparr>
      in if verbose (options tp1) = Some True then p_reportRemembered memoFile tp1
         else (None, tp1))"

text \<open>
  \<^verbatim>\<open>cell.find((el) => el.basename === inputFile.basename)\<close>: the first element whose
  basename is the one of the input; both getters throw on a file with no path.
\<close>

fun find_basename :: "vfile list \<Rightarrow> vfile \<Rightarrow> error + vfile option" where
  "find_basename [] inputFile = Inr None"
| "find_basename (el # els) inputFile =
     (case basename el of
        Inl e \<Rightarrow> Inl e
      | Inr b \<Rightarrow>
          (case basename inputFile of
             Inl e \<Rightarrow> Inl e
           | Inr b' \<Rightarrow> if b = b' then Inr (Some el) else find_basename els inputFile))"

text \<open>
  The constant \<^verbatim>\<open>memoFile\<close> of \<^verbatim>\<open>_restore\<close>:
  \<^verbatim>\<open>cell.length === 1 ? cell[0] : cell.find(...) || cell[0]\<close>. On an empty cell it is
  \<^verbatim>\<open>undefined\<close>, and the \<^verbatim>\<open>memoFile.clone\<close> that follows throws.
\<close>

definition restore_memoFile :: "vfile list \<Rightarrow> vfile \<Rightarrow> error + vfile" where
  "restore_memoFile cell inputFile =
     (if length cell = 1 then Inr (hd cell)
      else (case find_basename cell inputFile of
              Inl e \<Rightarrow> Inl e
            | Inr (Some el) \<Rightarrow> Inr el
            | Inr None \<Rightarrow>
                (case cell of
                   [] \<Rightarrow> Inl (TypeError ''Cannot read properties of undefined (reading clone)'')
                 | el # els \<Rightarrow> Inr el)))"

definition p_restore ::
  "jskey \<Rightarrow> vfile \<Rightarrow> task_proxy \<Rightarrow> (error + vfile option) \<times> task_proxy" where
  "p_restore k inputFile tp =
     (case map_get (p_memo tp) k of
        None \<Rightarrow> (Inr None, tp)
      | Some cell \<Rightarrow>
          (case restore_memoFile cell inputFile of
             Inl e \<Rightarrow> (Inl e, tp)
           | Inr memoFile \<Rightarrow>
               (case set_path (path inputFile) (clone memoFile) of
                  Inl e \<Rightarrow> (Inl e, tp)
                | Inr f1 \<Rightarrow>
                    (let restoredFile = f1\<lparr>base := base inputFile\<rparr> in
                     (case (if verbose (options tp) = Some True
                            then p_reportRestored memoFile inputFile tp else (None, tp)) of
                        (Some e, tp1) \<Rightarrow> (Inl e, tp1)
                      | (None, tp1) \<Rightarrow>
                          (Inr (Some restoredFile),
                           tp1\<lparr>p_restoredCount := Suc (p_restoredCount tp1)\<rparr>))))))"

definition listenersCount :: nat where
  "listenersCount = 3"

text \<open>
  \<^verbatim>\<open>_runTask\<close>: the remover is pushed, the ceiling raised by three, the three
  listeners added (\<^verbatim>\<open>on\<close>, \<^verbatim>\<open>once\<close>, \<^verbatim>\<open>once\<close>), the file tagged and written to the task.
\<close>

definition p_runTask :: "vfile \<Rightarrow> jskey \<Rightarrow> nat \<Rightarrow> task_proxy \<Rightarrow> task_proxy" where
  "p_runTask f k sid tp =
     (let tp1 = tp\<lparr>p_listenerRemovers := p_listenerRemovers tp @ [DetachRoute sid k]\<rparr>;
          t1 = setMaxListeners
                 ((case p_maxListeners (task tp1) of None \<Rightarrow> 0 | Some n \<Rightarrow> n) + listenersCount)
                 (task tp1);
          t2 = t1\<lparr>listeners := listeners t1 @ [OnData sid k]\<rparr>;
          t3 = t2\<lparr>listeners := listeners t2 @ [OnTransformed sid]\<rparr>;
          t4 = t3\<lparr>listeners := listeners t3 @ [OnError sid]\<rparr>
      in out (TaskWrite (f\<lparr>p_memoKey := k\<rparr>)) (tp1\<lparr>task := t4\<rparr>))"

definition p_runTaskAndRemember :: "vfile \<Rightarrow> jskey \<Rightarrow> nat \<Rightarrow> task_proxy \<Rightarrow> task_proxy" where
  "p_runTaskAndRemember f k sid tp =
     p_runTask f k sid (tp\<lparr>signals := (signals tp)[sid := emitter sid tp @ [Remember k]]\<rparr>)"

text \<open>
  The body \<^verbatim>\<open>processFile\<close> defers to the next tick, run on the emitter \<open>sid\<close> it
  returned. An exception in it rejects a promise nobody holds: nothing is signalled.
\<close>

definition processFile ::
  "(string \<Rightarrow> string) \<Rightarrow> vfile \<Rightarrow> nat \<Rightarrow> task_proxy \<Rightarrow> error option \<times> task_proxy" where
  "processFile H inputFile sid tp =
     (case p_getFileKey H inputFile tp of
        (Inl e, tp1) \<Rightarrow> (Some e, tp1)
      | (Inr k, tp1) \<Rightarrow>
          (case p_restore k inputFile tp1 of
             (Inl e, tp2) \<Rightarrow> (Some e, tp2)
           | (Inr (Some memoFile), tp2) \<Rightarrow>
               (let tp3 = emit_file sid memoFile tp2;
                    tp4 = emit_done sid tp3
                in (None, tp4\<lparr>p_listenerRemovers :=
                                p_listenerRemovers tp4 @ [RemoveSignals sid]\<rparr>))
           | (Inr None, tp2) \<Rightarrow> (None, p_runTaskAndRemember inputFile k sid tp2)))"

subsection \<open>The listeners on the task\<close>

text \<open>
  The \<^verbatim>\<open>cache\<close> listener of \<^verbatim>\<open>_runTaskAndRemember\<close>, run for every \<^verbatim>\<open>cache\<close>
  listener of the emitter in turn: remember, then emit \<^verbatim>\<open>file\<close>. An exception ends
  the emit.
\<close>

fun emit_cache_handlers ::
  "handler list \<Rightarrow> nat \<Rightarrow> vfile \<Rightarrow> task_proxy \<Rightarrow> error option \<times> task_proxy" where
  "emit_cache_handlers [] sid memoFile tp = (None, tp)"
| "emit_cache_handlers (h # hs) sid memoFile tp =
     (case h of
        Remember k \<Rightarrow>
          (case p_remember k memoFile tp of
             (Some e, tp1) \<Rightarrow> (Some e, tp1)
           | (None, tp1) \<Rightarrow> emit_cache_handlers hs sid memoFile (emit_file sid memoFile tp1))
      | _ \<Rightarrow> emit_cache_handlers hs sid memoFile tp)"

definition emit_cache :: "nat \<Rightarrow> vfile \<Rightarrow> task_proxy \<Rightarrow> error option \<times> task_proxy" where
  "emit_cache sid memoFile tp = emit_cache_handlers (emitter sid tp) sid memoFile tp"

text \<open>
  \<^verbatim>\<open>onData\<close> of \<^verbatim>\<open>_runTask\<close>. It returns the datum too: deleting \<^verbatim>\<open>_memoKey\<close> changes
  the object every later listener of the same \<^verbatim>\<open>data\<close> event receives.
\<close>

definition onData ::
  "nat \<Rightarrow> jskey \<Rightarrow> vfile \<Rightarrow> task_proxy \<Rightarrow> error option \<times> vfile \<times> task_proxy" where
  "onData sid k datum tp =
     (if p_memoKey datum \<noteq> k then (None, datum, tp)
      else
        (let datum1 = datum\<lparr>p_memoKey := Undefined\<rparr> in
         if listenerCount_cache sid tp \<ge> 1
         then (case emit_cache sid datum1 tp of (e, tp1) \<Rightarrow> (e, datum1, tp1))
         else (None, datum1, emit_file sid datum1 tp)))"

text \<open>
  The task emits \<^verbatim>\<open>data\<close>: the \<^verbatim>\<open>onData\<close> listeners run in the order they were added.
  What another party's listener does is not part of the model.
\<close>

fun emit_data :: "listener list \<Rightarrow> vfile \<Rightarrow> task_proxy \<Rightarrow> error option \<times> task_proxy" where
  "emit_data [] datum tp = (None, tp)"
| "emit_data (l # ls) datum tp =
     (case l of
        OnData sid k \<Rightarrow>
          (case onData sid k datum tp of
             (Some e, datum1, tp1) \<Rightarrow> (Some e, tp1)
           | (None, datum1, tp1) \<Rightarrow> emit_data ls datum1 tp1)
      | _ \<Rightarrow> emit_data ls datum tp)"

definition task_emit_data :: "vfile \<Rightarrow> task_proxy \<Rightarrow> error option \<times> task_proxy" where
  "task_emit_data datum tp = emit_data (listeners (task tp)) datum tp"

text \<open>
  The task emits \<^verbatim>\<open>gulp-memoize:transformed\<close> (the patched \<^verbatim>\<open>_transform\<close> does, after
  the callback): every \<^verbatim>\<open>onTransformed\<close> listener, added with \<^verbatim>\<open>once\<close>, is taken off
  the task and emits \<^verbatim>\<open>done\<close>.
\<close>

fun emit_transformed :: "listener list \<Rightarrow> task_proxy \<Rightarrow> task_proxy" where
  "emit_transformed [] tp = tp"
| "emit_transformed (l # ls) tp =
     (case l of
        OnTransformed sid \<Rightarrow>
          emit_transformed ls (emit_done sid (tp\<lparr>task := removeListener l (task tp)\<rparr>))
      | _ \<Rightarrow> emit_transformed ls tp)"

definition task_emit_transformed :: "task_proxy \<Rightarrow> task_proxy" where
  "task_emit_transformed tp = emit_transformed (listeners (task tp)) tp"

text \<open>
  The task emits \<^verbatim>\<open>error\<close>: every \<^verbatim>\<open>onError\<close> listener, added with \<^verbatim>\<open>once\<close>, is taken
  off the task and emits \<^verbatim>\<open>error\<close> on its signals.
\<close>

fun emit_task_error :: "listener list \<Rightarrow> error \<Rightarrow> task_proxy \<Rightarrow> error option \<times> task_proxy" where
  "emit_task_error [] err tp = (None, tp)"
| "emit_task_error (l # ls) err tp =
     (case l of
        OnError sid \<Rightarrow>
          (case emit_error sid err (tp\<lparr>task := removeListener l (task tp)\<rparr>) of
             (Some e, tp1) \<Rightarrow> (Some e, tp1)
           | (None, tp1) \<Rightarrow> emit_task_error ls err tp1)
      | _ \<Rightarrow> emit_task_error ls err tp)"

definition task_emit_error :: "error \<Rightarrow> task_proxy \<Rightarrow> error option \<times> task_proxy" where
  "task_emit_error err tp = emit_task_error (listeners (task tp)) err tp"

subsection \<open>Flush\<close>

text \<open>
  A remover of \<^verbatim>\<open>_listenerRemovers\<close>. The one of \<^verbatim>\<open>_runTask\<close> takes its three listeners
  off the task, lowers the ceiling by three and empties the signals emitter;
  \<^verbatim>\<open>setMaxListeners\<close> throws a \<^verbatim>\<open>RangeError\<close> on a negative number and on \<^verbatim>\<open>NaN\<close>, which
  is what \<^verbatim>\<open>undefined - 3\<close> is.
\<close>

definition run_remover :: "remover \<Rightarrow> task_proxy \<Rightarrow> error option \<times> task_proxy" where
  "run_remover r tp =
     (case r of
        RemoveSignals sid \<Rightarrow> (None, removeAllListeners sid tp)
      | DetachRoute sid k \<Rightarrow>
          (let t1 = removeListener (OnError sid) (task tp);
               t2 = removeListener (OnTransformed sid) t1;
               t3 = removeListener (OnData sid k) t2
           in (case p_maxListeners t3 of
                 None \<Rightarrow>
                   (Some (RangeError ''The value of n is out of range. Received NaN''),
                    tp\<lparr>task := t3\<rparr>)
               | Some n \<Rightarrow>
                   if n < listenersCount
                   then (Some (RangeError ''The value of n is out of range.''), tp\<lparr>task := t3\<rparr>)
                   else (None,
                         removeAllListeners sid
                           (tp\<lparr>task := setMaxListeners (n - listenersCount) t3\<rparr>)))))"

text \<open>
  \<^verbatim>\<open>this._listenerRemovers.forEach((remove) => remove())\<close>: every remover is called
  in turn; a remover that throws ends the loop.
\<close>

fun forEach_remove :: "remover list \<Rightarrow> task_proxy \<Rightarrow> error option \<times> task_proxy" where
  "forEach_remove [] tp = (None, tp)"
| "forEach_remove (r # rs) tp =
     (case run_remover r (out (Remove r) tp) of
        (Some e, tp1) \<Rightarrow> (Some e, tp1)
      | (None, tp1) \<Rightarrow> forEach_remove rs tp1)"

definition p_flush :: "task_proxy \<Rightarrow> error option \<times> task_proxy" where
  "p_flush tp =
     (let tp1 = p_reportTotal tp in
      (case forEach_remove (p_listenerRemovers tp1) tp1 of
         (Some e, tp2) \<Rightarrow> (Some e, tp2)
       | (None, tp2) \<Rightarrow>
           (let tp3 = tp2\<lparr>p_listenerRemovers := []\<rparr> in
            (None, if clearMemoOnFlush (options tp3) = Some True
                   then out MemoClear (tp3\<lparr>p_memo := []\<rparr>) else tp3))))"

text \<open>
  \<^verbatim>\<open>flush(next)\<close>. With a task that has a \<^verbatim>\<open>_flush\<close>, it only calls it, handing over
  the callback \<open>flush_callback\<close>; the task calls that back with its arguments when it
  has flushed. Without, it runs \<^verbatim>\<open>_flush\<close> and calls \<^verbatim>\<open>next()\<close>, or \<^verbatim>\<open>next(err)\<close> with
  what \<^verbatim>\<open>_flush\<close> threw.
\<close>

definition flush :: "task_proxy \<Rightarrow> task_proxy" where
  "flush tp =
     (if has_flush (task tp) then out TaskFlush tp
      else (case p_flush tp of
              (None, tp1) \<Rightarrow> out (Next None None) tp1
            | (Some e, tp1) \<Rightarrow> out (Next (Some e) None) tp1))"

text \<open>
  The callback handed to the task's \<^verbatim>\<open>_flush\<close>:
  \<^verbatim>\<open>async (...args) => { await this._flush(); next(...args) }\<close>. An exception of
  \<^verbatim>\<open>_flush\<close> rejects the promise of the callback, and \<^verbatim>\<open>next\<close> is not called.
\<close>

definition flush_callback ::
  "error option \<Rightarrow> vfile option \<Rightarrow> task_proxy \<Rightarrow> error option \<times> task_proxy" where
  "flush_callback err data tp =
     (case p_flush tp of
        (None, tp1) \<Rightarrow> (None, out (Next err data) tp1)
      | (Some e, tp1) \<Rightarrow> (Some e, tp1))"

section \<open>index.js: the plugin\<close>

text \<open>
  \<^verbatim>\<open>each\<close>, the transform function of the stream \<^verbatim>\<open>plugin\<close> returns. \<^verbatim>\<open>processFile\<close>
  makes the signals emitter and returns it, \<^verbatim>\<open>each\<close> adds its three listeners, and
  the deferred body of \<^verbatim>\<open>processFile\<close> runs after that.
\<close>

definition each ::
  "(string \<Rightarrow> string) \<Rightarrow> vfile \<Rightarrow> task_proxy \<Rightarrow> error option \<times> task_proxy" where
  "each H f tp =
     (if isNull f then (None, out (Next None (Some f)) tp)
      else if isStream f
      then (None,
            out (Next (Some (PluginError ''gulp-memoize'' ''Cannot operate on stream sources''))
                   None) tp)
      else processFile H f (length (signals tp))
             (tp\<lparr>signals := signals tp @ [[EachError, EachFile, EachDone]]\<rparr>))"

definition plugin_options ::
  "gulp_memoize_options \<Rightarrow> task_t \<Rightarrow> gulp_memoize_options \<Rightarrow> gulp_memoize_options" where
  "plugin_options defaults t inputOptions =
     spread (spread defaults (case cacheable t of None \<Rightarrow> empty_options | Some c \<Rightarrow> c))
       inputOptions"

definition plugin ::
  "gulp_memoize_options \<Rightarrow> task_t option \<Rightarrow> gulp_memoize_options \<Rightarrow> error + task_proxy" where
  "plugin defaults t inputOptions =
     (case t of
        None \<Rightarrow> Inl (PluginError ''gulp-memoize'' ''Must pass a task to cache()'')
      | Some t1 \<Rightarrow> Inr (TaskProxy t1 (plugin_options defaults t1 inputOptions)))"

section \<open>Runs\<close>

text \<open>
  What happens to a proxied stream, one event at a time: an item arrives, the task
  emits \<^verbatim>\<open>data\<close>, \<^verbatim>\<open>gulp-memoize:transformed\<close> or \<^verbatim>\<open>error\<close>, the input ends, the
  task calls the flush callback. An exception leaves the state as it stands.
\<close>

datatype event =
    Submit vfile
  | TaskData vfile
  | TaskTransformed
  | TaskError error
  | EndOfInput
  | TaskFlushed "error option" "vfile option"

fun step :: "(string \<Rightarrow> string) \<Rightarrow> event \<Rightarrow> task_proxy \<Rightarrow> task_proxy" where
  "step H (Submit f) tp = snd (each H f tp)"
| "step H (TaskData datum) tp = snd (task_emit_data datum tp)"
| "step H TaskTransformed tp = task_emit_transformed tp"
| "step H (TaskError err) tp = snd (task_emit_error err tp)"
| "step H EndOfInput tp = flush tp"
| "step H (TaskFlushed err data) tp = snd (flush_callback err data tp)"

fun run :: "(string \<Rightarrow> string) \<Rightarrow> event list \<Rightarrow> task_proxy \<Rightarrow> task_proxy" where
  "run H [] tp = tp"
| "run H (ev # evs) tp = run H evs (step H ev tp)"

subsection \<open>Notions of the statements\<close>

text \<open>The files written to the task, in a trace.\<close>

definition task_writes :: "effect list \<Rightarrow> vfile list" where
  "task_writes es = concat (map (\<lambda>e. case e of TaskWrite f \<Rightarrow> [f] | _ \<Rightarrow> []) es)"

text \<open>The cached payload bytes of a memo: the sum of \<open>fileBytes\<close> over every entry.\<close>

definition memo_total :: "memo_map \<Rightarrow> nat" where
  "memo_total m = sum_list (map fileBytes (concat (map_values m)))"

text \<open>The options a task carries: \<^verbatim>\<open>task.cacheable || {}\<close>.\<close>

definition task_cacheable :: "task_t \<Rightarrow> gulp_memoize_options" where
  "task_cacheable t = (case cacheable t of None \<Rightarrow> empty_options | Some c \<Rightarrow> c)"


section \<open>The subscriptions of the router\<close>

text \<open>
  What \<^verbatim>\<open>_runTask\<close> puts on the task and what its remover takes off again. A
  listener is foreign when the proxy did not add it; the listeners of a remover are
  the three its closure names; \<open>routes\<close> counts the removers of \<^verbatim>\<open>_runTask\<close> in a list
  (three listeners each); \<open>ceiling0\<close> reads a ceiling as \<^verbatim>\<open>_maxListeners || 0\<close>.
\<close>

definition is_foreign :: "listener \<Rightarrow> bool" where
  "is_foreign l = (case l of Foreign n \<Rightarrow> True | _ \<Rightarrow> False)"

fun listener_sid :: "listener \<Rightarrow> nat" where
  "listener_sid (OnError sid) = sid"
| "listener_sid (OnTransformed sid) = sid"
| "listener_sid (OnData sid k) = sid"
| "listener_sid (Foreign n) = 0"

fun route_listeners :: "remover \<Rightarrow> listener list" where
  "route_listeners (DetachRoute sid k) = [OnError sid, OnTransformed sid, OnData sid k]"
| "route_listeners (RemoveSignals sid) = []"

definition routes :: "remover list \<Rightarrow> nat" where
  "routes rs = length (concat (map route_listeners rs)) div 3"

definition ceiling0 :: "nat option \<Rightarrow> nat" where
  "ceiling0 m = (case m of None \<Rightarrow> 0 | Some n \<Rightarrow> n)"



fun remover_sid :: "remover \<Rightarrow> nat" where
  "remover_sid (RemoveSignals sid) = sid"
| "remover_sid (DetachRoute sid k) = sid"

text \<open>
  The invariant of a proxy on a task that had the listeners \<open>ls0\<close> and the ceiling
  \<open>m0\<close> when the proxy was made: the foreign listeners are \<open>ls0\<close>, the others are
  distinct, each is named by a pending remover and closes over an emitter that
  exists, and the ceiling is three above \<open>m0\<close> for every pending route.
\<close>

definition router_inv :: "listener list \<Rightarrow> nat option \<Rightarrow> task_proxy \<Rightarrow> bool" where
  "router_inv ls0 m0 tp =
     (filter is_foreign (listeners (task tp)) = ls0
      \<and> distinct (filter (\<lambda>l. \<not> is_foreign l) (listeners (task tp)))
      \<and> (\<forall>l \<in> set (listeners (task tp)). \<not> is_foreign l \<longrightarrow>
            l \<in> set (concat (map route_listeners (p_listenerRemovers tp)))
            \<and> listener_sid l < length (signals tp))
      \<and> (p_maxListeners (task tp) = Some (ceiling0 m0 + 3 * routes (p_listenerRemovers tp))
           \<or> routes (p_listenerRemovers tp) = 0 \<and> p_maxListeners (task tp) = m0))"


section \<open>Examples\<close>

text \<open>
  The task and the files of the tests: a task with no ceiling set and no \<^verbatim>\<open>_flush\<close>,
  with a listener of its owner on it, and files with the content
  \<^verbatim>\<open>abufferwiththiscontent\<close>.
\<close>

definition fakeTask :: task_t where
  "fakeTask =
     \<lparr> p_maxListeners = None, listeners = [Foreign 0], has_flush = False,
       cacheable = None, patches = 0 \<rparr>"

definition file1 :: vfile where
  "file1 =
     \<lparr> path = Some ''/test/fixtures/in/file1.txt'', base = ''/test'',
       contents = CBuffer ''abufferwiththiscontent'', p_memoKey = Undefined, props = [] \<rparr>"

definition file2 :: vfile where
  "file2 =
     \<lparr> path = Some ''/test/fixtures/in/file2.txt'', base = ''/test/fixtures'',
       contents = CBuffer ''abufferwiththiscontent'', p_memoKey = Undefined, props = [] \<rparr>"

definition streamFile :: vfile where
  "streamFile =
     \<lparr> path = None, base = ''/'', contents = CStream, p_memoKey = Undefined, props = [] \<rparr>"

text \<open>
  What the fake task of the tests makes of a file it was written: \<^verbatim>\<open>ran\<close> is set and
  the content gets the suffix \<^verbatim>\<open>-modified\<close>; the object, and with it the tag, is the
  one written.
\<close>

definition fakeFileHandler :: "vfile \<Rightarrow> vfile" where
  "fakeFileHandler f =
     f\<lparr>contents := (case contents f of CBuffer b \<Rightarrow> CBuffer (b @ ''-modified'') | c \<Rightarrow> c),
       props := filter (\<lambda>p. fst p \<noteq> ''ran'') (props f) @ [(''ran'', VBool True)]\<rparr>"

text \<open>The key of \<open>file1\<close> and \<open>file2\<close>: the digest of the base64 text of their content.\<close>

definition key1 :: "(string \<Rightarrow> string) \<Rightarrow> jskey" where
  "key1 H = Str (H ''YWJ1ZmZlcndpdGh0aGlzY29udGVudA=='')"

text \<open>
  A proxy on a memo that holds two entries under one key, and a proxy with one item
  routed into the task.
\<close>

definition ex_two :: task_proxy where
  "ex_two = TaskProxy fakeTask
       (defaultOptions\<lparr>memo := Some [(Str ''k'', [fakeFileHandler file1, fakeFileHandler file2])]\<rparr>)"

definition ex_routed :: task_proxy where
  "ex_routed = snd (each (\<lambda>s. s) file1 (TaskProxy fakeTask defaultOptions))"


definition memoize :: "gulp_memoize_options \<Rightarrow> task_proxy" where
  "memoize inputOptions = TaskProxy fakeTask (plugin_options defaultOptions fakeTask inputOptions)"

definition produced :: "(string \<Rightarrow> string) \<Rightarrow> vfile" where
  "produced H = fakeFileHandler (file1\<lparr>p_memoKey := key1 H\<rparr>)"

definition emptyFile1 :: vfile where
  "emptyFile1 =
     \<lparr> path = Some ''/test/fixtures/in/empty1.txt'', base = ''/test'',
       contents = CBuffer [], p_memoKey = Undefined, props = [] \<rparr>"

definition emptyFile2 :: vfile where
  "emptyFile2 =
     \<lparr> path = Some ''/test/fixtures/in/empty2.txt'', base = ''/test'',
       contents = CBuffer [], p_memoKey = Undefined, props = [] \<rparr>"

section \<open>Evaluation and frame lemmas\<close>

lemmas ex_defs = ex_two_def ex_routed_def fakeTask_def file1_def file2_def fakeFileHandler_def
  TaskProxy_def defaultOptions_def empty_options_def p_patchTask_def map_values_def

lemmas step_defs = each_def isNull_def isStream_def isBuffer_def processFile_def p_getFileKey_def
  defaultKey_def toString_base64_def b64_char_def out_def hash_def p_restore_def map_get_def map_has_def
  p_runTaskAndRemember_def p_runTask_def emitter_def setMaxListeners_def listenersCount_def
  task_emit_data_def onData_def listenerCount_cache_def is_cache_def emit_cache_def p_remember_def
  clone_def fileBytes_def emit_file_def emit_done_def emit_error_def task_emit_transformed_def
  task_emit_error_def removeListener_def restore_memoFile_def set_path_def basename_def path_basename_def
  has_relative_def p_reportRestored_def p_reportRemembered_def p_reportTotal_def
  flush_def flush_callback_def p_flush_def run_remover_def removeAllListeners_def

lemma foldl_add_sum: "foldl (\<lambda>acc f. acc + g f) (a::nat) xs = a + sum_list (map g xs)"
  by (induction xs arbitrary: a) simp_all

lemma foldl_cells_total:
  "foldl (\<lambda>bytes cell. bytes + foldl (\<lambda>acc f. acc + fileBytes f) 0 cell) a cells
     = a + sum_list (map fileBytes (concat cells))"
  by (induction cells arbitrary: a) (simp_all add: foldl_add_sum)

lemma TaskProxy_memoBytes:
  "p_memoBytes (TaskProxy t opts) = memo_total (case memo opts of Some m \<Rightarrow> m | None \<Rightarrow> [])"
  by (simp add: TaskProxy_def memo_total_def foldl_cells_total Let_def)

lemma memo_total_set_new:
  "map_of m k = None \<Longrightarrow> memo_total (map_set m k v) = memo_total m + sum_list (map fileBytes v)"
  by (induction m) (auto simp: memo_total_def map_values_def split: if_splits)

lemma memo_total_set_old:
  "map_of m k = Some cell \<Longrightarrow>
     memo_total (map_set m k (cell @ v)) = memo_total m + sum_list (map fileBytes v)"
  by (induction m) (auto simp: memo_total_def map_values_def split: if_splits)

lemma p_remember_memo:
  "p_memo (snd (p_remember k f tp)) =
     map_set (p_memo tp) k ((case map_get (p_memo tp) k of Some cell \<Rightarrow> cell | None \<Rightarrow> []) @ [f])"
  by (simp add: p_remember_def p_reportRemembered_def out_def clone_def map_has_def map_get_def
      Let_def split: option.splits)

lemma p_remember_memoBytes:
  "p_memoBytes (snd (p_remember k f tp)) = p_memoBytes tp + fileBytes f"
  by (simp add: p_remember_def p_reportRemembered_def out_def clone_def Let_def split: option.splits)

lemma memo_total_remember:
  "memo_total (p_memo (snd (p_remember k f tp))) = memo_total (p_memo tp) + fileBytes f"
  by (cases "map_of (p_memo tp) k")
     (simp_all add: p_remember_memo map_get_def memo_total_set_new memo_total_set_old[where v="[f]", simplified])

lemma find_basename_paths:
  "path inputFile = Some p \<Longrightarrow> \<forall>el \<in> set cell. path el \<noteq> None \<Longrightarrow>
     find_basename cell inputFile =
       Inr (find (\<lambda>el. path_basename (the (path el)) = path_basename p) cell)"
  by (induction cell) (auto simp: basename_def)

lemma p_restore_result:
  assumes "map_get (p_memo tp) k = Some cell"
      and "restore_memoFile cell inputFile = Inr el"
      and "path inputFile = Some p"
      and "verbose (options tp) = Some True \<longrightarrow> path el \<noteq> None"
  shows "fst (p_restore k inputFile tp) = Inr (Some (el\<lparr>path := Some p, base := base inputFile\<rparr>))"
    and "p_restoredCount (snd (p_restore k inputFile tp)) = Suc (p_restoredCount tp)"
    and "p_memo (snd (p_restore k inputFile tp)) = p_memo tp"
    and "task (snd (p_restore k inputFile tp)) = task tp"
    and "signals (snd (p_restore k inputFile tp)) = signals tp"
    and "options (snd (p_restore k inputFile tp)) = options tp"
    and "p_listenerRemovers (snd (p_restore k inputFile tp)) = p_listenerRemovers tp"
    and "p_memoBytes (snd (p_restore k inputFile tp)) = p_memoBytes tp"
    and "trace (snd (p_restore k inputFile tp)) =
           trace tp @ (if verbose (options tp) = Some True then [Log (ReportRestored el inputFile)] else [])"
  using assms
  by (auto simp: p_restore_def set_path_def clone_def p_reportRestored_def has_relative_def out_def Let_def)

lemma run_remover_frame:
  "p_memo (snd (run_remover r tp)) = p_memo tp"
  "options (snd (run_remover r tp)) = options tp"
  "trace (snd (run_remover r tp)) = trace tp"
  "p_restoredCount (snd (run_remover r tp)) = p_restoredCount tp"
  "p_memoBytes (snd (run_remover r tp)) = p_memoBytes tp"
  "p_listenerRemovers (snd (run_remover r tp)) = p_listenerRemovers tp"
  by (simp_all add: run_remover_def removeAllListeners_def Let_def split: remover.splits option.splits)

lemma forEach_remove_frame:
  "p_memo (snd (forEach_remove rs tp)) = p_memo tp
   \<and> options (snd (forEach_remove rs tp)) = options tp
   \<and> (fst (forEach_remove rs tp) = None \<longrightarrow>
        trace (snd (forEach_remove rs tp)) = trace tp @ map Remove rs)
   \<and> p_restoredCount (snd (forEach_remove rs tp)) = p_restoredCount tp
   \<and> p_memoBytes (snd (forEach_remove rs tp)) = p_memoBytes tp
   \<and> p_listenerRemovers (snd (forEach_remove rs tp)) = p_listenerRemovers tp"
proof (induction rs arbitrary: tp)
  case Nil
  show ?case by simp
next
  case (Cons r rs)
  obtain e tp1 where r: "run_remover r (out (Remove r) tp) = (e, tp1)"
    by (cases "run_remover r (out (Remove r) tp)")
  have f: "p_memo tp1 = p_memo tp" "options tp1 = options tp" "trace tp1 = trace tp @ [Remove r]"
    "p_restoredCount tp1 = p_restoredCount tp" "p_memoBytes tp1 = p_memoBytes tp"
    "p_listenerRemovers tp1 = p_listenerRemovers tp"
    using run_remover_frame[of r "out (Remove r) tp"] r by (simp_all add: out_def)
  show ?case
  proof (cases e)
    case None
    with r f Cons.IH[of tp1] show ?thesis by simp
  next
    case (Some a)
    with r f show ?thesis by simp
  qed
qed

lemma p_flush_ok:
  assumes "fst (p_flush tp) = None"
  shows "p_memo (snd (p_flush tp)) = (if clearMemoOnFlush (options tp) = Some True then [] else p_memo tp)"
    and "p_listenerRemovers (snd (p_flush tp)) = []"
    and "trace (snd (p_flush tp)) =
           trace tp @ [Log (ReportTotal (p_restoredCount tp) (p_memoBytes tp))]
             @ map Remove (p_listenerRemovers tp)
             @ (if clearMemoOnFlush (options tp) = Some True then [MemoClear] else [])"
    and "snd (p_flush tp) =
           (let tp2 = snd (forEach_remove (p_listenerRemovers tp) (p_reportTotal tp));
                tp3 = tp2\<lparr>p_listenerRemovers := []\<rparr>
            in if clearMemoOnFlush (options tp) = Some True
               then out MemoClear (tp3\<lparr>p_memo := []\<rparr>) else tp3)"
proof -
  let ?tp1 = "p_reportTotal tp"
  obtain e tp2 where r: "forEach_remove (p_listenerRemovers ?tp1) ?tp1 = (e, tp2)"
    by (cases "forEach_remove (p_listenerRemovers ?tp1) ?tp1")
  have rs: "p_listenerRemovers ?tp1 = p_listenerRemovers tp"
    by (simp add: p_reportTotal_def out_def)
  from assms r have e: "e = None"
    by (cases e) (simp_all add: p_flush_def Let_def)
  have f: "p_memo tp2 = p_memo tp" "options tp2 = options tp"
    "trace tp2 = trace tp @ [Log (ReportTotal (p_restoredCount tp) (p_memoBytes tp))]
       @ map Remove (p_listenerRemovers tp)"
    using forEach_remove_frame[of "p_listenerRemovers ?tp1" ?tp1] r e
    by (simp_all add: p_reportTotal_def out_def)
  show "p_memo (snd (p_flush tp)) = (if clearMemoOnFlush (options tp) = Some True then [] else p_memo tp)"
    using r e f by (simp add: p_flush_def Let_def out_def)
  show "p_listenerRemovers (snd (p_flush tp)) = []"
    using r e f by (simp add: p_flush_def Let_def out_def)
  show "trace (snd (p_flush tp)) =
           trace tp @ [Log (ReportTotal (p_restoredCount tp) (p_memoBytes tp))]
             @ map Remove (p_listenerRemovers tp)
             @ (if clearMemoOnFlush (options tp) = Some True then [MemoClear] else [])"
    using r e f by (simp add: p_flush_def Let_def out_def)
  show "snd (p_flush tp) =
           (let tp2 = snd (forEach_remove (p_listenerRemovers tp) (p_reportTotal tp));
                tp3 = tp2\<lparr>p_listenerRemovers := []\<rparr>
            in if clearMemoOnFlush (options tp) = Some True
               then out MemoClear (tp3\<lparr>p_memo := []\<rparr>) else tp3)"
    using r e f rs by (simp add: p_flush_def Let_def)
qed


lemmas ex_defs2 = memoize_def produced_def emptyFile1_def emptyFile2_def key1_def
  plugin_options_def spread_def

lemma p_getFileKey_state:
  "fst (p_getFileKey H f tp) = Inr k \<Longrightarrow> snd (p_getFileKey H f tp) = out (KeyCall f) tp"
  by (auto simp: p_getFileKey_def split: option.splits sum.splits)

lemma each_miss:
  assumes "\<not> isNull f" "\<not> isStream f"
      and "fst (p_getFileKey H f tp) = Inr k"
      and "map_get (p_memo tp) k = None"
  shows "each H f tp =
     (None,
      tp\<lparr>signals := signals tp @ [[EachError, EachFile, EachDone, Remember k]],
         p_listenerRemovers := p_listenerRemovers tp @ [DetachRoute (length (signals tp)) k],
         task := (task tp)
           \<lparr>p_maxListeners := Some ((case p_maxListeners (task tp) of None \<Rightarrow> 0 | Some n \<Rightarrow> n) + 3),
            listeners := listeners (task tp) @
              [OnData (length (signals tp)) k, OnTransformed (length (signals tp)),
               OnError (length (signals tp))]\<rparr>,
         trace := trace tp @ [KeyCall f, TaskWrite (f\<lparr>p_memoKey := k\<rparr>)]\<rparr>)"
proof -
  obtain r tp1 where g: "p_getFileKey H f tp = (r, tp1)" by (cases "p_getFileKey H f tp")
  with assms(3) p_getFileKey_state[OF assms(3)] have g': "p_getFileKey H f tp = (Inr k, out (KeyCall f) tp)"
    by simp
  have g'': "p_getFileKey H f (tp\<lparr>signals := signals tp @ [[EachError, EachFile, EachDone]]\<rparr>)
      = (Inr k, out (KeyCall f) (tp\<lparr>signals := signals tp @ [[EachError, EachFile, EachDone]]\<rparr>))"
    using g' by (auto simp: p_getFileKey_def out_def split: option.splits sum.splits)
  show ?thesis
    using assms(1,2,4)
    by (simp add: each_def processFile_def g'' p_restore_def out_def p_runTaskAndRemember_def
        p_runTask_def emitter_def setMaxListeners_def listenersCount_def Let_def)
qed

lemma onData_other:
  "p_memoKey datum \<noteq> k \<Longrightarrow> onData sid k datum tp = (None, datum, tp)"
  by (simp add: onData_def)

lemma emit_data_nomatch:
  "\<forall>l \<in> set ls. \<forall>s. l \<noteq> OnData s (p_memoKey datum) \<Longrightarrow> emit_data ls datum tp = (None, tp)"
proof (induction ls)
  case Nil
  show ?case by simp
next
  case (Cons l ls)
  then show ?case
    by (cases l) (auto simp: onData_other)
qed

lemma emit_data_append:
  "\<forall>l \<in> set ls. \<forall>s. l \<noteq> OnData s (p_memoKey datum) \<Longrightarrow>
     emit_data (ls @ ls') datum tp = emit_data ls' datum tp"
proof (induction ls)
  case Nil
  show ?case by simp
next
  case (Cons l ls)
  then show ?case
    by (cases l) (auto simp: onData_other)
qed

lemma p_remember_eq:
  assumes "verbose (options tp) = Some True \<longrightarrow> path f \<noteq> None"
  shows "p_remember k f tp =
     (None,
      tp\<lparr>p_memo := map_set (p_memo tp) k
                     ((case map_get (p_memo tp) k of Some cell \<Rightarrow> cell | None \<Rightarrow> []) @ [f]),
         p_memoBytes := p_memoBytes tp + fileBytes f,
         trace := trace tp @
           (if verbose (options tp) = Some True
            then [Log (ReportRemembered f (p_memoBytes tp + fileBytes f))] else [])\<rparr>)"
  using assms
  by (auto simp: p_remember_def p_reportRemembered_def has_relative_def out_def clone_def
      map_has_def map_get_def Let_def split: option.splits)

lemma onData_routed:
  assumes "sid < length (signals tp)"
      and "signals tp ! sid = [EachError, EachFile, EachDone, Remember k]"
      and "p_memoKey datum = k"
      and "verbose (options tp) = Some True \<longrightarrow> path datum \<noteq> None"
  shows "onData sid k datum tp =
     (None, datum\<lparr>p_memoKey := Undefined\<rparr>,
      tp\<lparr>p_memo := map_set (p_memo tp) k
                     ((case map_get (p_memo tp) k of Some cell \<Rightarrow> cell | None \<Rightarrow> [])
                        @ [datum\<lparr>p_memoKey := Undefined\<rparr>]),
         p_memoBytes := p_memoBytes tp + fileBytes datum,
         trace := trace tp @
           (if verbose (options tp) = Some True
            then [Log (ReportRemembered (datum\<lparr>p_memoKey := Undefined\<rparr>) (p_memoBytes tp + fileBytes datum))]
            else []) @ [Push (datum\<lparr>p_memoKey := Undefined\<rparr>)]\<rparr>)"
proof -
  let ?d = "datum\<lparr>p_memoKey := Undefined\<rparr>"
  have v: "verbose (options tp) = Some True \<longrightarrow> path ?d \<noteq> None"
    using assms(4) by simp
  have b: "fileBytes ?d = fileBytes datum"
    by (simp add: fileBytes_def isBuffer_def)
  show ?thesis
    using assms(1,2,3)
    by (simp add: onData_def listenerCount_cache_def is_cache_def emitter_def emit_cache_def
        p_remember_eq[OF v] b emit_file_def Let_def)
qed

lemma task_emit_data_routed:
  assumes "listeners (task tp) = ls @ [OnData sid k, OnTransformed sid, OnError sid]"
      and "\<forall>l \<in> set ls. \<forall>s. l \<noteq> OnData s k"
      and "sid < length (signals tp)"
      and "signals tp ! sid = [EachError, EachFile, EachDone, Remember k]"
      and "p_memoKey datum = k"
      and "verbose (options tp) = Some True \<longrightarrow> path datum \<noteq> None"
  shows "task_emit_data datum tp =
     (None,
      tp\<lparr>p_memo := map_set (p_memo tp) k
                     ((case map_get (p_memo tp) k of Some cell \<Rightarrow> cell | None \<Rightarrow> [])
                        @ [datum\<lparr>p_memoKey := Undefined\<rparr>]),
         p_memoBytes := p_memoBytes tp + fileBytes datum,
         trace := trace tp @
           (if verbose (options tp) = Some True
            then [Log (ReportRemembered (datum\<lparr>p_memoKey := Undefined\<rparr>) (p_memoBytes tp + fileBytes datum))]
            else []) @ [Push (datum\<lparr>p_memoKey := Undefined\<rparr>)]\<rparr>)"
proof -
  have n: "\<forall>l \<in> set ls. \<forall>s. l \<noteq> OnData s (p_memoKey datum)"
    using assms(2,5) by simp
  show ?thesis
    by (simp add: task_emit_data_def assms(1) emit_data_append[OF n]
        onData_routed[OF assms(3,4,5,6)])
qed

lemma each_hit:
  assumes "\<not> isNull f" "\<not> isStream f"
      and "fst (p_getFileKey H f tp) = Inr k"
      and "map_get (p_memo tp) k = Some cell"
      and "restore_memoFile cell f = Inr el"
      and "path f = Some p"
      and "verbose (options tp) = Some True \<longrightarrow> path el \<noteq> None"
  shows "each H f tp =
     (None,
      tp\<lparr>signals := signals tp @ [[EachError, EachFile, EachDone]],
         p_restoredCount := Suc (p_restoredCount tp),
         p_listenerRemovers := p_listenerRemovers tp @ [RemoveSignals (length (signals tp))],
         trace := trace tp @ [KeyCall f] @
           (if verbose (options tp) = Some True then [Log (ReportRestored el f)] else []) @
           [Push (el\<lparr>path := Some p, base := base f\<rparr>), Next None None]\<rparr>)"
proof -
  have g': "p_getFileKey H f tp = (Inr k, out (KeyCall f) tp)"
    using assms(3) p_getFileKey_state[OF assms(3)] by (cases "p_getFileKey H f tp") simp
  have g'': "p_getFileKey H f (tp\<lparr>signals := signals tp @ [[EachError, EachFile, EachDone]]\<rparr>)
      = (Inr k, out (KeyCall f) (tp\<lparr>signals := signals tp @ [[EachError, EachFile, EachDone]]\<rparr>))"
    using g' by (auto simp: p_getFileKey_def out_def split: option.splits sum.splits)
  show ?thesis
    using assms(1,2,4,5,6,7)
    by (auto simp: each_def processFile_def g'' p_restore_def out_def set_path_def clone_def
        p_reportRestored_def has_relative_def emit_file_def emit_done_def emitter_def Let_def)
qed


lemma map_set_new: "map_of m k = None \<Longrightarrow> map_set m k v = m @ [(k, v)]"
  by (induction m) (auto split: if_splits)

lemma map_get_set: "map_get (map_set m k v) k = Some v"
  by (induction m) (auto simp: map_get_def)

lemma task_writes_append [simp]: "task_writes (xs @ ys) = task_writes xs @ task_writes ys"
  by (simp add: task_writes_def)

lemma task_writes_simps [simp]:
  "task_writes [] = []"
  "task_writes (TaskWrite f # es) = f # task_writes es"
  "task_writes (Push f # es) = task_writes es"
  "task_writes (Next e d # es) = task_writes es"
  "task_writes (KeyCall f # es) = task_writes es"
  "task_writes (Log r # es) = task_writes es"
  "task_writes (TaskFlush # es) = task_writes es"
  "task_writes (Remove rm # es) = task_writes es"
  "task_writes (MemoClear # es) = task_writes es"
  by (simp_all add: task_writes_def)

text \<open>The first submission of a key the memo does not hold, and the output of the task for it.\<close>

lemma miss_then_data:
  assumes "\<not> isNull f1" "\<not> isStream f1"
      and "fst (p_getFileKey H f1 tp) = Inr k"
      and "map_get (p_memo tp) k = None"
      and "\<forall>l \<in> set (listeners (task tp)). \<forall>s. l \<noteq> OnData s k"
      and "p_memoKey datum = k"
      and "verbose (options tp) = Some True \<longrightarrow> path datum \<noteq> None"
  shows "task_emit_data datum (snd (each H f1 tp)) =
     (None,
      (snd (each H f1 tp))
        \<lparr>p_memo := p_memo tp @ [(k, [datum\<lparr>p_memoKey := Undefined\<rparr>])],
         p_memoBytes := p_memoBytes tp + fileBytes datum,
         trace := trace tp @ [KeyCall f1, TaskWrite (f1\<lparr>p_memoKey := k\<rparr>)] @
           (if verbose (options tp) = Some True
            then [Log (ReportRemembered (datum\<lparr>p_memoKey := Undefined\<rparr>) (p_memoBytes tp + fileBytes datum))]
            else []) @ [Push (datum\<lparr>p_memoKey := Undefined\<rparr>)]\<rparr>)"
proof -
  let ?tp1 = "snd (each H f1 tp)"
  note e = each_miss[OF assms(1,2,3,4)]
  have m: "map_of (p_memo tp) k = None" using assms(4) by (simp add: map_get_def)
  have l: "listeners (task ?tp1) = listeners (task tp) @
      [OnData (length (signals tp)) k, OnTransformed (length (signals tp)), OnError (length (signals tp))]"
    by (simp add: e)
  have s1: "length (signals tp) < length (signals ?tp1)" by (simp add: e)
  have s2: "signals ?tp1 ! length (signals tp) = [EachError, EachFile, EachDone, Remember k]"
    by (simp add: e)
  have v: "verbose (options ?tp1) = Some True \<longrightarrow> path datum \<noteq> None"
    using assms(7) by (simp add: e)
  have f: "p_memo ?tp1 = p_memo tp" "p_memoBytes ?tp1 = p_memoBytes tp" "options ?tp1 = options tp"
    "trace ?tp1 = trace tp @ [KeyCall f1, TaskWrite (f1\<lparr>p_memoKey := k\<rparr>)]"
    by (simp_all add: e)
  show ?thesis
    unfolding task_emit_data_routed[OF l assms(5) s1 s2 assms(6) v]
    using assms(4) by (simp add: f map_set_new[OF m])
qed

lemma map_get_append_new: "map_of m k = None \<Longrightarrow> map_get (m @ [(k, v)]) k = Some v"
  by (simp add: map_get_def map_add_def)

lemma p_getFileKey_options:
  "options tp' = options tp \<Longrightarrow> fst (p_getFileKey H f tp') = fst (p_getFileKey H f tp)"
  by (auto simp: p_getFileKey_def split: option.splits sum.splits)


lemma memoize_fields:
  "p_memo (memoize i) = (case memo i of Some m \<Rightarrow> m | None \<Rightarrow> [])"
  "listeners (task (memoize i)) = [Foreign 0]"
  "options (memoize i) = plugin_options defaultOptions fakeTask i"
  "trace (memoize i) = []"
  "signals (memoize i) = []"
  "p_listenerRemovers (memoize i) = []"
  "p_restoredCount (memoize i) = 0"
  "p_maxListeners (task (memoize i)) = None"
  by (simp_all add: memoize_def TaskProxy_def plugin_options_def spread_def defaultOptions_def
      fakeTask_def empty_options_def p_patchTask_def Let_def split: option.splits)

lemma default_key_file1:
  "key (options tp) = Some defaultKey \<Longrightarrow> fst (p_getFileKey H file1 tp) = Inr (key1 H)"
  by (simp add: p_getFileKey_def defaultKey_def file1_def toString_base64_def b64_char_def
      hash_def key1_def)

lemma default_key_file2:
  "key (options tp) = Some defaultKey \<Longrightarrow> fst (p_getFileKey H file2 tp) = Inr (key1 H)"
  by (simp add: p_getFileKey_def defaultKey_def file2_def toString_base64_def b64_char_def
      hash_def key1_def)

lemma memoize_default_key:
  "key i = None \<Longrightarrow> key (options (memoize i)) = Some defaultKey"
  by (simp add: memoize_fields plugin_options_def spread_def defaultOptions_def fakeTask_def
      empty_options_def)

lemma memoize_verbose:
  "verbose i = None \<Longrightarrow> verbose (options (memoize i)) = Some False"
  by (simp add: memoize_fields plugin_options_def spread_def defaultOptions_def fakeTask_def
      empty_options_def)

lemma files_are_buffers:
  "\<not> isNull file1" "\<not> isStream file1" "\<not> isNull file2" "\<not> isStream file2"
  "\<not> isNull emptyFile1" "\<not> isStream emptyFile1" "\<not> isNull emptyFile2" "\<not> isStream emptyFile2"
  by (simp_all add: isNull_def isStream_def file1_def file2_def emptyFile1_def emptyFile2_def)

lemma produced_fields:
  "p_memoKey (produced H) = key1 H"
  "(produced H)\<lparr>p_memoKey := Undefined\<rparr> = fakeFileHandler file1"
  "path (produced H) = Some ''/test/fixtures/in/file1.txt''"
  by (simp_all add: produced_def fakeFileHandler_def file1_def)

section \<open>The invariant of the router\<close>

lemma routes_simps [simp]:
  "routes [] = 0"
  "routes (DetachRoute sid k # rs) = Suc (routes rs)"
  "routes (RemoveSignals sid # rs) = routes rs"
  "routes (rs @ [DetachRoute sid k]) = Suc (routes rs)"
  "routes (rs @ [RemoveSignals sid]) = routes rs"
  by (simp_all add: routes_def)

subsection \<open>removeListener\<close>

lemma remove1_one:
  "distinct (filter Q xs) \<Longrightarrow> Q l \<Longrightarrow> remove1 l xs = filter (\<lambda>x. x \<noteq> l) xs"
proof (induction xs)
  case Nil
  show ?case by simp
next
  case (Cons a xs)
  show ?case
  proof (cases "a = l")
    case True
    with Cons.prems have "l \<notin> set xs" by auto
    then have "filter (\<lambda>x. x \<noteq> l) xs = xs" by (auto simp: filter_id_conv)
    with True show ?thesis by simp
  next
    case False
    with Cons show ?thesis by (auto split: if_splits)
  qed
qed

lemma removeListener_one:
  assumes "distinct (filter Q (listeners t))" "Q l"
  shows "listeners (removeListener l t) = filter (\<lambda>x. x \<noteq> l) (listeners t)"
proof -
  have "distinct (filter Q (rev (listeners t)))"
    using assms(1) by (simp add: rev_filter[symmetric])
  from remove1_one[OF this assms(2)] show ?thesis
    by (simp add: removeListener_def rev_filter)
qed

lemma removeListener_frame [simp]:
  "p_maxListeners (removeListener l t) = p_maxListeners t"
  "has_flush (removeListener l t) = has_flush t"
  by (simp_all add: removeListener_def)

lemma removeListener_set: "set (listeners (removeListener l t)) \<subseteq> set (listeners t)"
  using set_remove1_subset[of l "rev (listeners t)"] by (auto simp: removeListener_def)

lemma removeListener_filter:
  "\<not> P l \<Longrightarrow> filter P (listeners (removeListener l t)) = filter P (listeners t)"
proof -
  assume a: "\<not> P l"
  have "filter P (remove1 l (rev (listeners t))) = remove1 l (filter P (rev (listeners t)))"
    by (rule filter_remove1)
  also have "\<dots> = filter P (rev (listeners t))"
    using a by (simp add: remove1_idem)
  finally show ?thesis
    by (simp add: removeListener_def rev_filter[symmetric])
qed

lemma removeListener_distinct:
  "distinct (filter Q (listeners t)) \<Longrightarrow> distinct (filter Q (listeners (removeListener l t)))"
proof -
  assume a: "distinct (filter Q (listeners t))"
  have "filter Q (remove1 l (rev (listeners t))) = remove1 l (filter Q (rev (listeners t)))"
    by (rule filter_remove1)
  moreover have "distinct (filter Q (rev (listeners t)))"
    using a by (simp add: rev_filter[symmetric])
  ultimately show ?thesis
    by (simp add: removeListener_def rev_filter[symmetric])
qed


subsection \<open>What the listeners leave alone\<close>

lemma emit_frame [simp]:
  "task (emit_file sid f tp) = task tp"
  "p_listenerRemovers (emit_file sid f tp) = p_listenerRemovers tp"
  "signals (emit_file sid f tp) = signals tp"
  "options (emit_file sid f tp) = options tp"
  "task (emit_done sid tp) = task tp"
  "p_listenerRemovers (emit_done sid tp) = p_listenerRemovers tp"
  "signals (emit_done sid tp) = signals tp"
  "options (emit_done sid tp) = options tp"
  "task (out e tp) = task tp"
  "p_listenerRemovers (out e tp) = p_listenerRemovers tp"
  "signals (out e tp) = signals tp"
  "options (out e tp) = options tp"
  by (simp_all add: emit_file_def emit_done_def out_def)

lemma emit_error_frame [simp]:
  "task (snd (emit_error sid err tp)) = task tp"
  "p_listenerRemovers (snd (emit_error sid err tp)) = p_listenerRemovers tp"
  "signals (snd (emit_error sid err tp)) = signals tp"
  "options (snd (emit_error sid err tp)) = options tp"
  by (simp_all add: emit_error_def)

lemma p_remember_frame [simp]:
  "task (snd (p_remember k f tp)) = task tp"
  "p_listenerRemovers (snd (p_remember k f tp)) = p_listenerRemovers tp"
  "signals (snd (p_remember k f tp)) = signals tp"
  "options (snd (p_remember k f tp)) = options tp"
  by (simp_all add: p_remember_def p_reportRemembered_def out_def Let_def split: option.splits)

lemma emit_cache_handlers_frame:
  "task (snd (emit_cache_handlers hs sid f tp)) = task tp
   \<and> p_listenerRemovers (snd (emit_cache_handlers hs sid f tp)) = p_listenerRemovers tp
   \<and> signals (snd (emit_cache_handlers hs sid f tp)) = signals tp
   \<and> options (snd (emit_cache_handlers hs sid f tp)) = options tp"
proof (induction hs arbitrary: tp)
  case Nil
  show ?case by simp
next
  case (Cons h hs)
  show ?case
  proof (cases h)
    case (Remember k)
    obtain e tp1 where r: "p_remember k f tp = (e, tp1)" by (cases "p_remember k f tp")
    have f: "task tp1 = task tp" "p_listenerRemovers tp1 = p_listenerRemovers tp"
      "signals tp1 = signals tp" "options tp1 = options tp"
      using p_remember_frame[of k f tp] r by simp_all
    show ?thesis
    proof (cases e)
      case None
      with Remember r f Cons.IH[of "emit_file sid f tp1"] show ?thesis by simp
    next
      case (Some a)
      with Remember r f show ?thesis by simp
    qed
  qed (use Cons.IH[of tp] in simp_all)
qed

lemma onData_frame:
  "task (snd (snd (onData sid k d tp))) = task tp
   \<and> p_listenerRemovers (snd (snd (onData sid k d tp))) = p_listenerRemovers tp
   \<and> signals (snd (snd (onData sid k d tp))) = signals tp
   \<and> options (snd (snd (onData sid k d tp))) = options tp"
  using emit_cache_handlers_frame[of "emitter sid tp" sid "d\<lparr>p_memoKey := Undefined\<rparr>" tp]
  by (auto simp: onData_def emit_cache_def Let_def split: prod.splits)

lemma emit_data_frame:
  "task (snd (emit_data ls d tp)) = task tp
   \<and> p_listenerRemovers (snd (emit_data ls d tp)) = p_listenerRemovers tp
   \<and> signals (snd (emit_data ls d tp)) = signals tp
   \<and> options (snd (emit_data ls d tp)) = options tp"
proof (induction ls arbitrary: d tp)
  case Nil
  show ?case by simp
next
  case (Cons l ls)
  show ?case
  proof (cases l)
    case (OnData sid k)
    obtain e d1 tp1 where r: "onData sid k d tp = (e, d1, tp1)" by (cases "onData sid k d tp")
    have f: "task tp1 = task tp" "p_listenerRemovers tp1 = p_listenerRemovers tp"
      "signals tp1 = signals tp" "options tp1 = options tp"
      using onData_frame[of sid k d tp] r by simp_all
    show ?thesis
    proof (cases e)
      case None
      with OnData r f Cons.IH[of d1 tp1] show ?thesis by simp
    next
      case (Some a)
      with OnData r f show ?thesis by simp
    qed
  qed (use Cons.IH[of d tp] in simp_all)
qed

lemma task_emit_data_frame:
  "task (snd (task_emit_data d tp)) = task tp"
  "p_listenerRemovers (snd (task_emit_data d tp)) = p_listenerRemovers tp"
  "signals (snd (task_emit_data d tp)) = signals tp"
  "options (snd (task_emit_data d tp)) = options tp"
  using emit_data_frame[of "listeners (task tp)" d tp] by (simp_all add: task_emit_data_def)

lemma router_inv_cong:
  "task tp' = task tp \<Longrightarrow> p_listenerRemovers tp' = p_listenerRemovers tp \<Longrightarrow>
   length (signals tp') = length (signals tp) \<Longrightarrow> router_inv ls0 m0 tp' = router_inv ls0 m0 tp"
  by (simp add: router_inv_def)

lemma inv_task_emit_data:
  "router_inv ls0 m0 tp \<Longrightarrow> router_inv ls0 m0 (snd (task_emit_data d tp))"
  by (simp add: router_inv_cong[OF task_emit_data_frame(1,2)] task_emit_data_frame(3))


lemma inv_removeListener:
  assumes "router_inv ls0 m0 tp" "\<not> is_foreign l"
  shows "router_inv ls0 m0 (tp\<lparr>task := removeListener l (task tp)\<rparr>)"
proof -
  have s: "set (listeners (removeListener l (task tp))) \<subseteq> set (listeners (task tp))"
    by (rule removeListener_set)
  have f: "filter is_foreign (listeners (removeListener l (task tp))) = filter is_foreign (listeners (task tp))"
    using assms(2) by (rule removeListener_filter)
  have d: "distinct (filter (\<lambda>l. \<not> is_foreign l) (listeners (removeListener l (task tp))))"
    using assms(1) by (intro removeListener_distinct) (simp add: router_inv_def)
  show ?thesis
    using assms(1) s f d unfolding router_inv_def by auto
qed

lemma inv_emit_transformed:
  "router_inv ls0 m0 tp \<Longrightarrow> router_inv ls0 m0 (emit_transformed ls tp)"
proof (induction ls arbitrary: tp)
  case Nil
  then show ?case by simp
next
  case (Cons l ls)
  show ?case
  proof (cases l)
    case (OnTransformed sid)
    let ?tp1 = "emit_done sid (tp\<lparr>task := removeListener l (task tp)\<rparr>)"
    have "router_inv ls0 m0 (tp\<lparr>task := removeListener l (task tp)\<rparr>)"
      using Cons.prems OnTransformed by (intro inv_removeListener) (simp_all add: is_foreign_def)
    then have "router_inv ls0 m0 ?tp1"
      by (simp add: router_inv_cong[of ?tp1 "tp\<lparr>task := removeListener l (task tp)\<rparr>"])
    from Cons.IH[OF this] OnTransformed show ?thesis by simp
  qed (use Cons in simp_all)
qed

lemma inv_task_emit_transformed:
  "router_inv ls0 m0 tp \<Longrightarrow> router_inv ls0 m0 (task_emit_transformed tp)"
  by (simp add: task_emit_transformed_def inv_emit_transformed)

lemma inv_emit_task_error:
  "router_inv ls0 m0 tp \<Longrightarrow> router_inv ls0 m0 (snd (emit_task_error ls err tp))"
proof (induction ls arbitrary: tp)
  case Nil
  then show ?case by simp
next
  case (Cons l ls)
  show ?case
  proof (cases l)
    case (OnError sid)
    let ?tp0 = "tp\<lparr>task := removeListener l (task tp)\<rparr>"
    obtain e tp1 where r: "emit_error sid err ?tp0 = (e, tp1)" by (cases "emit_error sid err ?tp0")
    have i0: "router_inv ls0 m0 ?tp0"
      using Cons.prems OnError by (intro inv_removeListener) (simp_all add: is_foreign_def)
    have "task tp1 = task ?tp0" "p_listenerRemovers tp1 = p_listenerRemovers ?tp0"
      "signals tp1 = signals ?tp0"
      using emit_error_frame[of sid err ?tp0] r by simp_all
    then have i1: "router_inv ls0 m0 tp1"
      using i0 router_inv_cong[of tp1 ?tp0] by simp
    show ?thesis
    proof (cases e)
      case None
      with OnError r Cons.IH[OF i1] show ?thesis by simp
    next
      case (Some a)
      with OnError r i1 show ?thesis by simp
    qed
  qed (use Cons in simp_all)
qed

lemma inv_task_emit_error:
  "router_inv ls0 m0 tp \<Longrightarrow> router_inv ls0 m0 (snd (task_emit_error err tp))"
  by (simp add: task_emit_error_def inv_emit_task_error)



lemma p_restore_frame:
  "task (snd (p_restore k f tp)) = task tp"
  "p_listenerRemovers (snd (p_restore k f tp)) = p_listenerRemovers tp"
  "signals (snd (p_restore k f tp)) = signals tp"
  by (auto simp: p_restore_def p_reportRestored_def out_def Let_def
      split: option.splits sum.splits prod.splits)

lemma p_getFileKey_frame:
  "task (snd (p_getFileKey H f tp)) = task tp"
  "p_listenerRemovers (snd (p_getFileKey H f tp)) = p_listenerRemovers tp"
  "signals (snd (p_getFileKey H f tp)) = signals tp"
  by (auto simp: p_getFileKey_def split: option.splits sum.splits)

lemma processFile_core:
  "(task (snd (processFile H f sid tp)) = task tp
     \<and> p_listenerRemovers (snd (processFile H f sid tp)) = p_listenerRemovers tp
     \<and> length (signals (snd (processFile H f sid tp))) = length (signals tp))
   \<or> (task (snd (processFile H f sid tp)) = task tp
     \<and> p_listenerRemovers (snd (processFile H f sid tp)) = p_listenerRemovers tp @ [RemoveSignals sid]
     \<and> length (signals (snd (processFile H f sid tp))) = length (signals tp))
   \<or> (\<exists>k. task (snd (processFile H f sid tp)) =
          (task tp)\<lparr>p_maxListeners := Some (ceiling0 (p_maxListeners (task tp)) + 3),
                     listeners := listeners (task tp) @ [OnData sid k, OnTransformed sid, OnError sid]\<rparr>
     \<and> p_listenerRemovers (snd (processFile H f sid tp)) = p_listenerRemovers tp @ [DetachRoute sid k]
     \<and> length (signals (snd (processFile H f sid tp))) = length (signals tp))"
proof -
  obtain r1 tp1 where g: "p_getFileKey H f tp = (r1, tp1)" by (cases "p_getFileKey H f tp")
  have f1: "task tp1 = task tp" "p_listenerRemovers tp1 = p_listenerRemovers tp" "signals tp1 = signals tp"
    using p_getFileKey_frame[of H f tp] g by simp_all
  show ?thesis
  proof (cases r1)
    case (Inl e)
    with g f1 show ?thesis by (simp add: processFile_def)
  next
    case (Inr k)
    obtain r2 tp2 where r: "p_restore k f tp1 = (r2, tp2)" by (cases "p_restore k f tp1")
    have f2: "task tp2 = task tp" "p_listenerRemovers tp2 = p_listenerRemovers tp" "signals tp2 = signals tp"
      using p_restore_frame[of k f tp1] r f1 by simp_all
    show ?thesis
    proof (cases r2)
      case (Inl e)
      with g Inr r f2 show ?thesis by (simp add: processFile_def)
    next
      case inr: (Inr m)
      show ?thesis
      proof (cases m)
        case None
        with g Inr r inr f2 show ?thesis
          by (simp add: processFile_def p_runTaskAndRemember_def p_runTask_def setMaxListeners_def
              listenersCount_def ceiling0_def out_def Let_def)
      next
        case (Some memoFile)
        with g Inr r inr f2 show ?thesis
          by (simp add: processFile_def Let_def)
      qed
    qed
  qed
qed


lemma inv_each:
  assumes "router_inv ls0 m0 tp"
  shows "router_inv ls0 m0 (snd (each H f tp))"
proof -
  let ?n = "length (signals tp)"
  let ?tp0 = "tp\<lparr>signals := signals tp @ [[EachError, EachFile, EachDone]]\<rparr>"
  let ?tp' = "snd (processFile H f ?n ?tp0)"
  have i0: "router_inv ls0 m0 ?tp0"
    using assms unfolding router_inv_def by auto
  have "router_inv ls0 m0 ?tp'"
    using processFile_core[of H f ?n ?tp0]
  proof (elim disjE exE conjE)
    assume "task ?tp' = task ?tp0" "p_listenerRemovers ?tp' = p_listenerRemovers ?tp0"
      "length (signals ?tp') = length (signals ?tp0)"
    then show ?thesis using i0 router_inv_cong[of ?tp' ?tp0] by simp
  next
    assume "task ?tp' = task ?tp0"
      "p_listenerRemovers ?tp' = p_listenerRemovers ?tp0 @ [RemoveSignals ?n]"
      "length (signals ?tp') = length (signals ?tp0)"
    then show ?thesis using i0 unfolding router_inv_def by simp
  next
    fix k
    assume t: "task ?tp' =
          (task ?tp0)\<lparr>p_maxListeners := Some (ceiling0 (p_maxListeners (task ?tp0)) + 3),
                     listeners := listeners (task ?tp0) @ [OnData ?n k, OnTransformed ?n, OnError ?n]\<rparr>"
      and r: "p_listenerRemovers ?tp' = p_listenerRemovers ?tp0 @ [DetachRoute ?n k]"
      and l: "length (signals ?tp') = length (signals ?tp0)"
    have fresh: "\<forall>l \<in> set (listeners (task tp)). \<not> is_foreign l \<longrightarrow> listener_sid l < ?n"
      using assms unfolding router_inv_def by blast
    have new: "OnData ?n k \<notin> set (listeners (task tp))" "OnTransformed ?n \<notin> set (listeners (task tp))"
      "OnError ?n \<notin> set (listeners (task tp))"
      using fresh by (auto simp: is_foreign_def)
    have c: "p_maxListeners (task tp) = Some (ceiling0 m0 + 3 * routes (p_listenerRemovers tp))
         \<or> routes (p_listenerRemovers tp) = 0 \<and> p_maxListeners (task tp) = m0"
      using assms unfolding router_inv_def by blast
    have c': "ceiling0 (p_maxListeners (task tp)) + 3 = ceiling0 m0 + 3 * Suc (routes (p_listenerRemovers tp))"
      using c by (auto simp: ceiling0_def)
    show ?thesis
      using assms new c' unfolding router_inv_def t r l
      by (auto simp: is_foreign_def)
  qed
  moreover have "router_inv ls0 m0 (out e tp)" for e
    using assms router_inv_cong[of "out e tp" tp] by simp
  ultimately show ?thesis
    by (simp add: each_def)
qed

subsection \<open>The removers at flush\<close>

lemma removeAllListeners_frame [simp]:
  "task (removeAllListeners sid tp) = task tp"
  "p_listenerRemovers (removeAllListeners sid tp) = p_listenerRemovers tp"
  "length (signals (removeAllListeners sid tp)) = length (signals tp)"
  by (simp_all add: removeAllListeners_def)

text \<open>
  Running the removers \<open>rs\<close> on a task whose own listeners are distinct and whose
  ceiling covers the routes of \<open>rs\<close>: no exception, the listeners of the routes are gone
  and the ceiling is lower by three a route.
\<close>

lemma forEach_remove_ok:
  assumes "distinct (filter (\<lambda>l. \<not> is_foreign l) (listeners (task tp)))"
      and "routes rs = 0 \<or> (\<exists>n. p_maxListeners (task tp) = Some (n + 3 * routes rs))"
  shows "fst (forEach_remove rs tp) = None
       \<and> listeners (task (snd (forEach_remove rs tp))) =
           filter (\<lambda>l. l \<notin> set (concat (map route_listeners rs))) (listeners (task tp))
       \<and> (routes rs = 0 \<longrightarrow>
            p_maxListeners (task (snd (forEach_remove rs tp))) = p_maxListeners (task tp))
       \<and> (\<forall>n. p_maxListeners (task tp) = Some (n + 3 * routes rs) \<longrightarrow>
            p_maxListeners (task (snd (forEach_remove rs tp))) = Some n)"
  using assms
proof (induction rs arbitrary: tp)
  case Nil
  show ?case by simp
next
  case (Cons r rs)
  show ?case
  proof (cases r)
    case (RemoveSignals sid)
    let ?tp0 = "out (Remove r) tp"
    have r1: "run_remover r ?tp0 = (None, removeAllListeners sid ?tp0)"
      using RemoveSignals by (simp add: run_remover_def)
    have "routes rs = 0 \<or> (\<exists>n. p_maxListeners (task (removeAllListeners sid ?tp0)) = Some (n + 3 * routes rs))"
      using Cons.prems(2) RemoveSignals by simp
    from Cons.IH[of "removeAllListeners sid ?tp0", OF _ this] Cons.prems(1) r1 RemoveSignals
    show ?thesis by simp
  next
    case (DetachRoute sid k)
    let ?nf = "\<lambda>l. \<not> is_foreign l"
    let ?t1 = "removeListener (OnError sid) (task tp)"
    let ?t2 = "removeListener (OnTransformed sid) ?t1"
    let ?t3 = "removeListener (OnData sid k) ?t2"
    from Cons.prems(2) DetachRoute obtain n where n: "p_maxListeners (task tp) = Some (n + 3 * Suc (routes rs))"
      by auto
    have d1: "distinct (filter ?nf (listeners ?t1))"
      using Cons.prems(1) by (rule removeListener_distinct)
    have d2: "distinct (filter ?nf (listeners ?t2))"
      using d1 by (rule removeListener_distinct)
    have d3: "distinct (filter ?nf (listeners ?t3))"
      using d2 by (rule removeListener_distinct)
    have l1: "listeners ?t1 = filter (\<lambda>x. x \<noteq> OnError sid) (listeners (task tp))"
      using Cons.prems(1) by (rule removeListener_one) (simp add: is_foreign_def)
    have l2: "listeners ?t2 = filter (\<lambda>x. x \<noteq> OnTransformed sid) (listeners ?t1)"
      using d1 by (rule removeListener_one) (simp add: is_foreign_def)
    have l3: "listeners ?t3 = filter (\<lambda>x. x \<noteq> OnData sid k) (listeners ?t2)"
      using d2 by (rule removeListener_one) (simp add: is_foreign_def)
    have l: "listeners ?t3 = filter (\<lambda>x. x \<notin> set (route_listeners r)) (listeners (task tp))"
      using DetachRoute by (simp add: l1 l2 l3 conj_commute conj_left_commute)
    let ?tp1 = "removeAllListeners sid
      ((out (Remove r) tp)\<lparr>task := setMaxListeners (n + 3 * routes rs) ?t3\<rparr>)"
    have r1: "run_remover r (out (Remove r) tp) = (None, ?tp1)"
      using DetachRoute n by (simp add: run_remover_def listenersCount_def Let_def)
    have t1: "task ?tp1 = setMaxListeners (n + 3 * routes rs) ?t3"
      by simp
    have p: "distinct (filter ?nf (listeners (task ?tp1)))"
      using d3 by (simp add: setMaxListeners_def)
    have c: "routes rs = 0 \<or> (\<exists>m. p_maxListeners (task ?tp1) = Some (m + 3 * routes rs))"
      by (simp add: setMaxListeners_def)
    have m: "p_maxListeners (task ?tp1) = Some (n + 3 * routes rs)"
      by (simp add: setMaxListeners_def)
    note ih = Cons.IH[OF p c]
    have fin: "p_maxListeners (task (snd (forEach_remove rs ?tp1))) = Some n"
      using ih m by (cases "routes rs = 0") auto
    have ls: "listeners (task (snd (forEach_remove rs ?tp1))) =
        filter (\<lambda>l. l \<notin> set (concat (map route_listeners (r # rs)))) (listeners (task tp))"
      using ih l by (simp add: setMaxListeners_def conj_commute)
    show ?thesis
      using ih r1 fin ls n DetachRoute by simp
  qed
qed



lemma emitter_removeAllListeners:
  "emitter sid (removeAllListeners s tp) = (if s = sid then [] else emitter sid tp)"
  by (auto simp: emitter_def removeAllListeners_def)

lemma emitter_task [simp]: "emitter sid (tp\<lparr>task := t\<rparr>) = emitter sid tp"
  by (simp add: emitter_def)

lemma emitter_out [simp]: "emitter sid (out e tp) = emitter sid tp"
  by (simp add: emitter_def)

lemma run_remover_signals:
  "length (signals (snd (run_remover r tp))) = length (signals tp)"
  "emitter sid tp = [] \<longrightarrow> emitter sid (snd (run_remover r tp)) = []"
  "fst (run_remover r tp) = None \<longrightarrow> emitter (remover_sid r) (snd (run_remover r tp)) = []"
  by (auto simp: run_remover_def emitter_removeAllListeners Let_def
      split: remover.splits option.splits if_splits)

lemma forEach_remove_signals:
  "length (signals (snd (forEach_remove rs tp))) = length (signals tp)
   \<and> (emitter sid tp = [] \<longrightarrow> emitter sid (snd (forEach_remove rs tp)) = [])
   \<and> (fst (forEach_remove rs tp) = None \<longrightarrow>
        (\<forall>r \<in> set rs. emitter (remover_sid r) (snd (forEach_remove rs tp)) = []))"
proof (induction rs arbitrary: tp sid)
  case Nil
  show ?case by simp
next
  case (Cons r rs)
  let ?tp0 = "out (Remove r) tp"
  obtain e tp1 where r: "run_remover r ?tp0 = (e, tp1)" by (cases "run_remover r ?tp0")
  have f: "length (signals tp1) = length (signals tp)"
    "emitter sid tp = [] \<longrightarrow> emitter sid tp1 = []"
    "e = None \<longrightarrow> emitter (remover_sid r) tp1 = []"
    using run_remover_signals(1)[where r=r and tp="?tp0"]
      run_remover_signals(2)[where r=r and tp="?tp0" and sid=sid]
      run_remover_signals(3)[where r=r and tp="?tp0"] r by simp_all
  show ?case
  proof (cases e)
    case None
    have "emitter (remover_sid r) (snd (forEach_remove rs tp1)) = []"
      using Cons.IH[of tp1 "remover_sid r"] f(3) None by simp
    with None r f Cons.IH[of tp1 sid] show ?thesis by simp
  next
    case (Some a)
    with r f show ?thesis by simp
  qed
qed

lemma p_flush_inv:
  assumes "router_inv ls0 m0 tp"
  shows "fst (p_flush tp) = None"
    and "listeners (task (snd (p_flush tp))) = ls0"
    and "p_listenerRemovers (snd (p_flush tp)) = []"
    and "p_maxListeners (task (snd (p_flush tp))) = m0
         \<or> p_maxListeners (task (snd (p_flush tp))) = Some (ceiling0 m0)"
    and "\<forall>r \<in> set (p_listenerRemovers tp). emitter (remover_sid r) (snd (p_flush tp)) = []"
    and "router_inv ls0 m0 (snd (p_flush tp))"
proof -
  let ?rs = "p_listenerRemovers tp"
  let ?tp1 = "p_reportTotal tp"
  let ?tp2 = "snd (forEach_remove ?rs ?tp1)"
  have t1: "task ?tp1 = task tp" "p_listenerRemovers ?tp1 = ?rs" "signals ?tp1 = signals tp"
    by (simp_all add: p_reportTotal_def)
  have d: "distinct (filter (\<lambda>l. \<not> is_foreign l) (listeners (task ?tp1)))"
    using assms by (simp add: router_inv_def t1)
  have c0: "p_maxListeners (task tp) = Some (ceiling0 m0 + 3 * routes ?rs)
         \<or> routes ?rs = 0 \<and> p_maxListeners (task tp) = m0"
    using assms unfolding router_inv_def by blast
  then have c: "routes ?rs = 0 \<or> (\<exists>n. p_maxListeners (task ?tp1) = Some (n + 3 * routes ?rs))"
    by (auto simp: t1)
  note ok = forEach_remove_ok[OF d c]
  have e: "fst (forEach_remove ?rs ?tp1) = None" using ok by simp
  have cov: "\<forall>l \<in> set (listeners (task tp)). \<not> is_foreign l \<longrightarrow>
      l \<in> set (concat (map route_listeners ?rs))"
    using assms unfolding router_inv_def by blast
  have nf: "\<forall>l \<in> set (concat (map route_listeners ?rs)). \<not> is_foreign l"
  proof
    fix l assume "l \<in> set (concat (map route_listeners ?rs))"
    then obtain r where "l \<in> set (route_listeners r)" by auto
    then show "\<not> is_foreign l" by (cases r) (auto simp: is_foreign_def)
  qed
  have "filter (\<lambda>l. l \<notin> set (concat (map route_listeners ?rs))) (listeners (task tp))
          = filter is_foreign (listeners (task tp))"
    using cov nf by (intro filter_cong) auto
  then have l2: "listeners (task ?tp2) = ls0"
    using ok assms by (simp add: t1 router_inv_def)
  have m2: "p_maxListeners (task ?tp2) = m0 \<or> p_maxListeners (task ?tp2) = Some (ceiling0 m0)"
  proof (cases "routes ?rs = 0")
    case True
    with ok have "p_maxListeners (task ?tp2) = p_maxListeners (task tp)" by (simp add: t1)
    with c0 True show ?thesis by auto
  next
    case False
    with c0 have "p_maxListeners (task ?tp1) = Some (ceiling0 m0 + 3 * routes ?rs)" by (simp add: t1)
    with ok show ?thesis by blast
  qed
  have s: "snd (p_flush tp) =
      (let tp3 = ?tp2\<lparr>p_listenerRemovers := []\<rparr>
       in if clearMemoOnFlush (options tp3) = Some True
          then out MemoClear (tp3\<lparr>p_memo := []\<rparr>) else tp3)"
    using e by (cases "forEach_remove ?rs ?tp1") (simp add: p_flush_def t1 Let_def)
  show "fst (p_flush tp) = None"
    using e by (cases "forEach_remove ?rs ?tp1") (simp add: p_flush_def t1 Let_def)
  show l: "listeners (task (snd (p_flush tp))) = ls0"
    using l2 by (simp add: s Let_def)
  show r: "p_listenerRemovers (snd (p_flush tp)) = []"
    by (simp add: s Let_def)
  show m: "p_maxListeners (task (snd (p_flush tp))) = m0
         \<or> p_maxListeners (task (snd (p_flush tp))) = Some (ceiling0 m0)"
    using m2 by (simp add: s Let_def)
  have "\<forall>r \<in> set ?rs. emitter (remover_sid r) ?tp2 = []"
    using forEach_remove_signals[of ?rs ?tp1] e by simp
  moreover have "emitter sid (snd (p_flush tp)) = emitter sid ?tp2" for sid
    by (simp add: emitter_def s Let_def)
  ultimately show "\<forall>r \<in> set ?rs. emitter (remover_sid r) (snd (p_flush tp)) = []"
    by simp
  have f: "filter is_foreign ls0 = ls0" "filter (\<lambda>l. \<not> is_foreign l) ls0 = []"
    using assms by (auto simp: router_inv_def)
  show "router_inv ls0 m0 (snd (p_flush tp))"
    unfolding router_inv_def l r using m f
    by (auto simp: filter_empty_conv)
qed

lemma inv_flush: "router_inv ls0 m0 tp \<Longrightarrow> router_inv ls0 m0 (flush tp)"
  using p_flush_inv(1,6)[of ls0 m0 tp] router_inv_cong[of "out TaskFlush tp" tp]
    router_inv_cong[of "out (Next None None) (snd (p_flush tp))" "snd (p_flush tp)"]
  by (cases "p_flush tp") (auto simp: flush_def)

lemma inv_flush_callback:
  "router_inv ls0 m0 tp \<Longrightarrow> router_inv ls0 m0 (snd (flush_callback err data tp))"
  using p_flush_inv(1,6)[of ls0 m0 tp]
    router_inv_cong[of "out (Next err data) (snd (p_flush tp))" "snd (p_flush tp)"]
  by (cases "p_flush tp") (auto simp: flush_callback_def)

lemma inv_step: "router_inv ls0 m0 tp \<Longrightarrow> router_inv ls0 m0 (step H ev tp)"
  by (cases ev)
     (simp_all add: inv_each inv_task_emit_data inv_task_emit_transformed inv_task_emit_error
        inv_flush inv_flush_callback)

lemma inv_run: "router_inv ls0 m0 tp \<Longrightarrow> router_inv ls0 m0 (run H evs tp)"
  by (induction evs arbitrary: tp) (simp_all add: inv_step)

lemma inv_TaskProxy:
  "\<forall>l \<in> set (listeners t). is_foreign l \<Longrightarrow>
     router_inv (listeners t) (p_maxListeners t) (TaskProxy t opts)"
  by (simp add: router_inv_def TaskProxy_def p_patchTask_def Let_def filter_id_conv filter_empty_conv)


text \<open>
  What \<^verbatim>\<open>_flush\<close> leaves of the subscriptions, stated on the state before it: with the
  own listeners of the task distinct and the ceiling covering the pending routes, no
  remover throws, the listeners of every pending route are off the task and the
  ceiling is lower by three a route; and when \<^verbatim>\<open>_flush\<close> returns, the signals emitter
  of every pending remover has no listener left.
\<close>

lemma p_flush_cleanup:
  assumes d: "distinct (filter (\<lambda>l. \<not> is_foreign l) (listeners (task tp)))"
      and c: "routes (p_listenerRemovers tp) = 0
              \<or> (\<exists>n. p_maxListeners (task tp) = Some (n + 3 * routes (p_listenerRemovers tp)))"
  shows "fst (p_flush tp) = None"
    and "listeners (task (snd (p_flush tp))) =
           filter (\<lambda>l. l \<notin> set (concat (map route_listeners (p_listenerRemovers tp))))
             (listeners (task tp))"
    and "routes (p_listenerRemovers tp) = 0 \<longrightarrow>
           p_maxListeners (task (snd (p_flush tp))) = p_maxListeners (task tp)"
    and "\<forall>n. p_maxListeners (task tp) = Some (n + 3 * routes (p_listenerRemovers tp)) \<longrightarrow>
           p_maxListeners (task (snd (p_flush tp))) = Some n"
proof -
  let ?rs = "p_listenerRemovers tp"
  let ?tp1 = "p_reportTotal tp"
  let ?tp2 = "snd (forEach_remove ?rs ?tp1)"
  have t1: "task ?tp1 = task tp" "p_listenerRemovers ?tp1 = ?rs"
    by (simp_all add: p_reportTotal_def)
  have d1: "distinct (filter (\<lambda>l. \<not> is_foreign l) (listeners (task ?tp1)))"
    using d by (simp add: t1)
  have c1: "routes ?rs = 0 \<or> (\<exists>n. p_maxListeners (task ?tp1) = Some (n + 3 * routes ?rs))"
    using c by (simp add: t1)
  note ok = forEach_remove_ok[OF d1 c1]
  have e: "fst (forEach_remove ?rs ?tp1) = None" using ok by simp
  have s: "task (snd (p_flush tp)) = task ?tp2"
    using e by (cases "forEach_remove ?rs ?tp1") (simp add: p_flush_def t1 Let_def)
  show "fst (p_flush tp) = None"
    using e by (cases "forEach_remove ?rs ?tp1") (simp add: p_flush_def t1 Let_def)
  show "listeners (task (snd (p_flush tp))) =
           filter (\<lambda>l. l \<notin> set (concat (map route_listeners ?rs))) (listeners (task tp))"
    using ok by (simp add: s t1)
  show "routes ?rs = 0 \<longrightarrow> p_maxListeners (task (snd (p_flush tp))) = p_maxListeners (task tp)"
    using ok by (simp add: s t1)
  show "\<forall>n. p_maxListeners (task tp) = Some (n + 3 * routes ?rs) \<longrightarrow>
           p_maxListeners (task (snd (p_flush tp))) = Some n"
    using ok by (simp add: s t1)
qed

lemma p_flush_signals:
  assumes "fst (p_flush tp) = None"
  shows "\<forall>r \<in> set (p_listenerRemovers tp). emitter (remover_sid r) (snd (p_flush tp)) = []"
proof -
  let ?rs = "p_listenerRemovers tp"
  let ?tp1 = "p_reportTotal tp"
  let ?tp2 = "snd (forEach_remove ?rs ?tp1)"
  have t1: "p_listenerRemovers ?tp1 = ?rs"
    by (simp add: p_reportTotal_def)
  have e: "fst (forEach_remove ?rs ?tp1) = None"
    using assms by (cases "forEach_remove ?rs ?tp1") (auto simp: p_flush_def t1 Let_def split: option.splits)
  have "\<forall>r \<in> set ?rs. emitter (remover_sid r) ?tp2 = []"
    using forEach_remove_signals[of ?rs ?tp1] e by simp
  moreover have "emitter sid (snd (p_flush tp)) = emitter sid ?tp2" for sid
    using e by (cases "forEach_remove ?rs ?tp1") (simp add: p_flush_def t1 Let_def emitter_def)
  ultimately show ?thesis by simp
qed

text \<open>
  Both conditions hold of every state a proxy reaches on a task that had only
  foreign listeners when the proxy was made.
\<close>

lemma flush_pre_reachable:
  assumes "\<forall>l \<in> set (listeners t). is_foreign l"
  shows "distinct (filter (\<lambda>l. \<not> is_foreign l) (listeners (task (run H evs (TaskProxy t opts)))))"
    and "routes (p_listenerRemovers (run H evs (TaskProxy t opts))) = 0
         \<or> (\<exists>n. p_maxListeners (task (run H evs (TaskProxy t opts))) =
                  Some (n + 3 * routes (p_listenerRemovers (run H evs (TaskProxy t opts)))))"
proof -
  have i: "router_inv (listeners t) (p_maxListeners t) (run H evs (TaskProxy t opts))"
    using inv_TaskProxy[OF assms] by (rule inv_run)
  show "distinct (filter (\<lambda>l. \<not> is_foreign l) (listeners (task (run H evs (TaskProxy t opts)))))"
    using i by (simp add: router_inv_def)
  show "routes (p_listenerRemovers (run H evs (TaskProxy t opts))) = 0
         \<or> (\<exists>n. p_maxListeners (task (run H evs (TaskProxy t opts))) =
                  Some (n + 3 * routes (p_listenerRemovers (run H evs (TaskProxy t opts)))))"
    using i unfolding router_inv_def by blast
qed


section \<open>The claims\<close>

text \<open>
  C1, as amended. The code has no success predicate: a \<^verbatim>\<open>success\<close> option is carried
  in the options and never read. A produced item for which it returns false is
  remembered like any other (the memo gains a copy under the derived key) and is
  delivered unchanged but for the tag taken off; a later submission with the same
  derived key is restored from the memo, and the task is not invoked for it.
\<close>

theorem C1_remembered_whatever_success:
  assumes "success (options tp) = Some ok"
      and "\<not> ok (datum\<lparr>p_memoKey := Undefined\<rparr>)"
      and "\<not> isNull f1" "\<not> isStream f1"
      and "fst (p_getFileKey H f1 tp) = Inr k"
      and "map_get (p_memo tp) k = None"
      and "\<forall>l \<in> set (listeners (task tp)). \<forall>s. l \<noteq> OnData s k"
      and "p_memoKey datum = k"
      and "verbose (options tp) = Some True \<longrightarrow> path datum \<noteq> None"
      and "\<not> isNull f2" "\<not> isStream f2"
      and "fst (p_getFileKey H f2 tp) = Inr k"
      and "path f2 = Some p"
  shows "p_memo (snd (task_emit_data datum (snd (each H f1 tp))))
           = p_memo tp @ [(k, [clone (datum\<lparr>p_memoKey := Undefined\<rparr>)])]
       \<and> trace (snd (task_emit_data datum (snd (each H f1 tp))))
           = trace tp @ [KeyCall f1, TaskWrite (f1\<lparr>p_memoKey := k\<rparr>)] @
               (if verbose (options tp) = Some True
                then [Log (ReportRemembered (datum\<lparr>p_memoKey := Undefined\<rparr>)
                             (p_memoBytes tp + fileBytes datum))]
                else []) @
               [Push (datum\<lparr>p_memoKey := Undefined\<rparr>)]
       \<and> trace (snd (each H f2 (snd (task_emit_data datum (snd (each H f1 tp))))))
           = trace (snd (task_emit_data datum (snd (each H f1 tp)))) @ [KeyCall f2] @
               (if verbose (options tp) = Some True
                then [Log (ReportRestored (datum\<lparr>p_memoKey := Undefined\<rparr>) f2)] else []) @
               [Push (clone (datum\<lparr>p_memoKey := Undefined\<rparr>)\<lparr>path := path f2, base := base f2\<rparr>),
                Next None None]"
proof -
  let ?d = "datum\<lparr>p_memoKey := Undefined\<rparr>"
  let ?tp2 = "snd (task_emit_data datum (snd (each H f1 tp)))"
  note a = miss_then_data[OF assms(3-9)]
  note e = each_miss[OF assms(3-6)]
  have m: "map_of (p_memo tp) k = None" using assms(6) by (simp add: map_get_def)
  have g: "map_get (p_memo ?tp2) k = Some [?d]"
    using map_get_append_new[OF m] by (simp add: a)
  have r: "restore_memoFile [?d] f2 = Inr ?d"
    by (simp add: restore_memoFile_def)
  have o: "options ?tp2 = options tp"
    by (simp add: a) (simp add: e)
  have k2: "fst (p_getFileKey H f2 ?tp2) = Inr k"
    using assms(12) p_getFileKey_options[OF o] by simp
  have v2: "verbose (options ?tp2) = Some True \<longrightarrow> path ?d \<noteq> None"
    using assms(9) o by simp
  note b = each_hit[OF assms(10,11) k2 g r assms(13) v2]
  have pm: "p_memo ?tp2 = p_memo tp @ [(k, [?d])]"
    by (simp add: a)
  have tr: "trace ?tp2 = trace tp @ [KeyCall f1, TaskWrite (f1\<lparr>p_memoKey := k\<rparr>)] @
               (if verbose (options tp) = Some True
                then [Log (ReportRemembered ?d (p_memoBytes tp + fileBytes datum))] else []) @
               [Push ?d]"
    by (simp add: a)
  have tr2: "trace (snd (each H f2 ?tp2)) =
      trace ?tp2 @ [KeyCall f2] @
        (if verbose (options tp) = Some True then [Log (ReportRestored ?d f2)] else []) @
        [Push (?d\<lparr>path := path f2, base := base f2\<rparr>), Next None None]"
    using assms(13) o by (simp add: b)
  show ?thesis
    using pm tr tr2 by (simp add: clone_def)
qed

text \<open>
  C1 as stated fails: with \<^verbatim>\<open>success() { return false }\<close>, as in the test, the memo
  gains the entry and the second submission of the key does not reach the task.
\<close>

theorem C1_counterexample:
  "\<forall>H. (let tp = memoize (empty_options\<lparr>success := Some (\<lambda>f. False)\<rparr>);
            tp1 = snd (each H file1 tp);
            tp2 = snd (task_emit_data (produced H) tp1);
            tp3 = snd (each H file2 tp2)
        in (case success (options tp) of Some ok \<Rightarrow> \<not> ok ((produced H)\<lparr>p_memoKey := Undefined\<rparr>) | None \<Rightarrow> False)
           \<and> p_memo tp1 = []
           \<and> p_memo tp2 = [(key1 H, [fakeFileHandler file1])]
           \<and> p_memo tp2 \<noteq> p_memo tp1
           \<and> task_writes (trace tp2) = [file1\<lparr>p_memoKey := key1 H\<rparr>]
           \<and> task_writes (trace tp3) = [file1\<lparr>p_memoKey := key1 H\<rparr>])"
  by (simp add: ex_defs ex_defs2 step_defs Let_def)

theorem C1_remembered_whatever_success_witness:
  "\<forall>H. p_memo (snd (task_emit_data (produced H)
             (snd (each H file1 (memoize (empty_options\<lparr>success := Some (\<lambda>f. False)\<rparr>))))))
         = [(key1 H, [fakeFileHandler file1])]
     \<and> trace (snd (each H file2 (snd (task_emit_data (produced H)
             (snd (each H file1 (memoize (empty_options\<lparr>success := Some (\<lambda>f. False)\<rparr>))))))))
         = [KeyCall file1, TaskWrite (file1\<lparr>p_memoKey := key1 H\<rparr>), Push (fakeFileHandler file1),
            KeyCall file2,
            Push ((fakeFileHandler file1)\<lparr>path := path file2, base := base file2\<rparr>),
            Next None None]"
proof
  fix H
  let ?i = "empty_options\<lparr>success := Some (\<lambda>f. False)\<rparr>"
  let ?tp = "memoize ?i"
  have i: "key ?i = None" "verbose ?i = None" "memo ?i = None"
    by (simp_all add: empty_options_def)
  have s: "success (options ?tp) = Some (\<lambda>f. False)"
    by (simp add: memoize_fields plugin_options_def spread_def fakeTask_def empty_options_def)
  have n: "\<not> (\<lambda>f. False) ((produced H)\<lparr>p_memoKey := Undefined\<rparr>)" by simp
  have k1: "fst (p_getFileKey H file1 ?tp) = Inr (key1 H)"
    by (rule default_key_file1[OF memoize_default_key[OF i(1)]])
  have k2: "fst (p_getFileKey H file2 ?tp) = Inr (key1 H)"
    by (rule default_key_file2[OF memoize_default_key[OF i(1)]])
  have m: "map_get (p_memo ?tp) (key1 H) = None"
    by (simp add: memoize_fields i map_get_def)
  have l: "\<forall>l \<in> set (listeners (task ?tp)). \<forall>s. l \<noteq> OnData s (key1 H)"
    by (simp add: memoize_fields)
  have v: "verbose (options ?tp) = Some True \<longrightarrow> path (produced H) \<noteq> None"
    by (simp add: memoize_verbose[OF i(2)])
  have p: "path file2 = Some ''/test/fixtures/in/file2.txt''"
    by (simp add: file2_def)
  show "p_memo (snd (task_emit_data (produced H) (snd (each H file1 ?tp))))
         = [(key1 H, [fakeFileHandler file1])]
     \<and> trace (snd (each H file2 (snd (task_emit_data (produced H) (snd (each H file1 ?tp))))))
         = [KeyCall file1, TaskWrite (file1\<lparr>p_memoKey := key1 H\<rparr>), Push (fakeFileHandler file1),
            KeyCall file2,
            Push ((fakeFileHandler file1)\<lparr>path := path file2, base := base file2\<rparr>),
            Next None None]"
    using C1_remembered_whatever_success[OF s n files_are_buffers(1,2) k1 m l produced_fields(1) v
        files_are_buffers(3,4) k2 p]
    by (simp add: memoize_fields(1,4) i memoize_verbose[OF i(2)] produced_fields clone_def)
qed

text \<open>
  C2, as amended. The code has no value projector: whatever the \<^verbatim>\<open>value\<close> option is
  (a field name, a function, absent), \<^verbatim>\<open>_remember\<close> stores a copy of the whole
  produced item at the end of the cell of its key.
\<close>

theorem C2_whole_item_stored:
  "map_get (p_memo (snd (p_remember k f (tp\<lparr>options := (options tp)\<lparr>value_opt := v\<rparr>\<rparr>)))) k
     = Some ((case map_get (p_memo tp) k of Some cell \<Rightarrow> cell | None \<Rightarrow> []) @ [clone f])
   \<and> path (clone f) = path f \<and> base (clone f) = base f \<and> contents (clone f) = contents f
   \<and> props (clone f) = props f"
  by (simp add: p_remember_memo map_get_set clone_def)

text \<open>
  C2 as stated fails: with \<^verbatim>\<open>value: 'ran'\<close> the stored entry is the whole item, content
  and path included, and with a function that returns \<^verbatim>\<open>{ cached: true }\<close> the stored
  entry is the same whole item, with no property \<^verbatim>\<open>cached\<close>.
\<close>

theorem C2_counterexample:
  "\<forall>H. (let tpS = memoize (empty_options\<lparr>value_opt := Some (ValueField ''ran'')\<rparr>);
            tpF = memoize (empty_options\<lparr>value_opt := Some (ValueFn (\<lambda>f. [(''cached'', VBool True)]))\<rparr>);
            whole = \<lparr> path = Some ''/test/fixtures/in/file1.txt'', base = ''/test'',
                      contents = CBuffer ''abufferwiththiscontent-modified'',
                      p_memoKey = Undefined, props = [(''ran'', VBool True)] \<rparr>
        in p_memo (snd (task_emit_data (produced H) (snd (each H file1 tpS)))) = [(key1 H, [whole])]
           \<and> p_memo (snd (task_emit_data (produced H) (snd (each H file1 tpF)))) = [(key1 H, [whole])]
           \<and> map_of (props whole) ''cached'' = None)"
  by (simp add: ex_defs ex_defs2 step_defs Let_def)

theorem C2_whole_item_stored_witness:
  "\<forall>H. map_get (p_memo (snd (p_remember (key1 H) (fakeFileHandler file1)
            ((memoize empty_options)
               \<lparr>options := (options (memoize empty_options))\<lparr>value_opt := Some (ValueField ''ran'')\<rparr>\<rparr>))))
          (key1 H)
        = Some [fakeFileHandler file1]"
proof
  fix H
  have e: "memo empty_options = None" by (simp add: empty_options_def)
  show "map_get (p_memo (snd (p_remember (key1 H) (fakeFileHandler file1)
            ((memoize empty_options)
               \<lparr>options := (options (memoize empty_options))\<lparr>value_opt := Some (ValueField ''ran'')\<rparr>\<rparr>))))
          (key1 H)
        = Some [fakeFileHandler file1]"
    using C2_whole_item_stored[where k="key1 H" and f="fakeFileHandler file1"
        and tp="memoize empty_options" and v="Some (ValueField ''ran'')"]
    by (simp add: memoize_fields(1) e map_get_def clone_def)
qed

text \<open>
  C3, as amended. A falsy key is not hashed and is the key used: the lookup is made
  under it, on a miss the item is written to the task with the falsy key as its tag,
  the output is remembered under the falsy key, and a later item with the same falsy
  key is restored from the memo without the task.
\<close>

theorem C3_falsy_key_memoized:
  assumes "key (options tp) = Some getKey"
      and "getKey f1 = Inr kr" "getKey f2 = Inr kr"
      and "\<not> truthy kr"
      and "\<not> isNull f1" "\<not> isStream f1"
      and "map_get (p_memo tp) kr = None"
      and "\<forall>l \<in> set (listeners (task tp)). \<forall>s. l \<noteq> OnData s kr"
      and "p_memoKey datum = kr"
      and "verbose (options tp) = Some True \<longrightarrow> path datum \<noteq> None"
      and "\<not> isNull f2" "\<not> isStream f2"
      and "path f2 = Some p"
  shows "fst (p_getFileKey H f1 tp) = Inr kr
       \<and> task_writes (trace (snd (each H f1 tp))) = task_writes (trace tp) @ [f1\<lparr>p_memoKey := kr\<rparr>]
       \<and> map_get (p_memo (snd (task_emit_data datum (snd (each H f1 tp))))) kr
           = Some [clone (datum\<lparr>p_memoKey := Undefined\<rparr>)]
       \<and> task_writes (trace (snd (each H f2 (snd (task_emit_data datum (snd (each H f1 tp)))))))
           = task_writes (trace (snd (task_emit_data datum (snd (each H f1 tp)))))
       \<and> trace (snd (each H f2 (snd (task_emit_data datum (snd (each H f1 tp))))))
           = trace (snd (task_emit_data datum (snd (each H f1 tp)))) @ [KeyCall f2] @
               (if verbose (options tp) = Some True
                then [Log (ReportRestored (datum\<lparr>p_memoKey := Undefined\<rparr>) f2)] else []) @
               [Push (clone (datum\<lparr>p_memoKey := Undefined\<rparr>)\<lparr>path := path f2, base := base f2\<rparr>),
                Next None None]"
proof -
  let ?d = "datum\<lparr>p_memoKey := Undefined\<rparr>"
  let ?tp2 = "snd (task_emit_data datum (snd (each H f1 tp)))"
  have k1: "fst (p_getFileKey H f1 tp) = Inr kr"
    using assms(1,2,4) by (simp add: p_getFileKey_def)
  have k2': "fst (p_getFileKey H f2 tp) = Inr kr"
    using assms(1,3,4) by (simp add: p_getFileKey_def)
  note a = miss_then_data[OF assms(5,6) k1 assms(7-10)]
  note e = each_miss[OF assms(5,6) k1 assms(7)]
  have m: "map_of (p_memo tp) kr = None" using assms(7) by (simp add: map_get_def)
  have g: "map_get (p_memo ?tp2) kr = Some [?d]"
    using map_get_append_new[OF m] by (simp add: a)
  have r: "restore_memoFile [?d] f2 = Inr ?d"
    by (simp add: restore_memoFile_def)
  have o: "options ?tp2 = options tp"
    by (simp add: a) (simp add: e)
  have k2: "fst (p_getFileKey H f2 ?tp2) = Inr kr"
    using k2' p_getFileKey_options[OF o] by simp
  have v2: "verbose (options ?tp2) = Some True \<longrightarrow> path ?d \<noteq> None"
    using assms(10) o by simp
  note b = each_hit[OF assms(11,12) k2 g r assms(13) v2]
  have w1: "task_writes (trace (snd (each H f1 tp))) = task_writes (trace tp) @ [f1\<lparr>p_memoKey := kr\<rparr>]"
    by (simp add: e)
  have tr2: "trace (snd (each H f2 ?tp2)) =
      trace ?tp2 @ [KeyCall f2] @
        (if verbose (options tp) = Some True then [Log (ReportRestored ?d f2)] else []) @
        [Push (?d\<lparr>path := path f2, base := base f2\<rparr>), Next None None]"
    using assms(13) o by (simp add: b)
  have w2: "task_writes (trace (snd (each H f2 ?tp2))) = task_writes (trace ?tp2)"
    by (simp add: tr2)
  show ?thesis
    using k1 w1 g w2 tr2 by (simp add: clone_def)
qed

text \<open>
  C3 as stated fails: two empty files under the default options have the key \<^verbatim>\<open>''\<close>
  (the base64 text of no bytes); the output for the first is stored under it, and the
  second is restored from the memo and never written to the task.
\<close>

theorem C3_counterexample:
  "\<forall>H. (let tp = memoize empty_options;
            tp1 = snd (each H emptyFile1 tp);
            tp2 = snd (task_emit_data (fakeFileHandler (emptyFile1\<lparr>p_memoKey := Str []\<rparr>)) tp1);
            tp3 = snd (each H emptyFile2 tp2)
        in fst (p_getFileKey H emptyFile1 tp) = Inr (Str [])
           \<and> fst (p_getFileKey H emptyFile2 tp2) = Inr (Str [])
           \<and> \<not> truthy (Str [])
           \<and> p_memo tp2 = [(Str [], [fakeFileHandler emptyFile1])]
           \<and> trace tp3 =
               [KeyCall emptyFile1, TaskWrite (emptyFile1\<lparr>p_memoKey := Str []\<rparr>),
                Push (fakeFileHandler emptyFile1),
                KeyCall emptyFile2,
                Push ((fakeFileHandler emptyFile1)\<lparr>path := path emptyFile2, base := base emptyFile2\<rparr>),
                Next None None]
           \<and> task_writes (trace tp3) = [emptyFile1\<lparr>p_memoKey := Str []\<rparr>])"
  by (simp add: ex_defs ex_defs2 step_defs Let_def)

theorem C3_falsy_key_memoized_witness:
  "\<forall>H. (let tp = memoize (empty_options\<lparr>key := Some (\<lambda>f. Inr Undefined)\<rparr>);
            tp2 = snd (task_emit_data (fakeFileHandler file1) (snd (each H file1 tp)))
        in fst (p_getFileKey H file1 tp) = Inr Undefined
           \<and> map_get (p_memo tp2) Undefined = Some [fakeFileHandler file1]
           \<and> task_writes (trace (snd (each H file1 tp))) = [file1]
           \<and> task_writes (trace (snd (each H file2 tp2))) = task_writes (trace tp2))"
proof
  fix H
  let ?i = "empty_options\<lparr>key := Some (\<lambda>f. Inr Undefined)\<rparr>"
  let ?tp = "memoize ?i"
  let ?tp2 = "snd (task_emit_data (fakeFileHandler file1) (snd (each H file1 ?tp)))"
  have i: "verbose ?i = None" "memo ?i = None"
    by (simp_all add: empty_options_def)
  have k: "key (options ?tp) = Some (\<lambda>f. Inr Undefined)"
    by (simp add: memoize_fields plugin_options_def spread_def fakeTask_def empty_options_def)
  have g: "(\<lambda>f. Inr Undefined) file1 = Inr Undefined" "(\<lambda>f. Inr Undefined) file2 = Inr Undefined"
    by simp_all
  have t: "\<not> truthy Undefined" by simp
  have m: "map_get (p_memo ?tp) Undefined = None"
    by (simp add: memoize_fields i map_get_def)
  have l: "\<forall>l \<in> set (listeners (task ?tp)). \<forall>s. l \<noteq> OnData s Undefined"
    by (simp add: memoize_fields)
  have d: "p_memoKey (fakeFileHandler file1) = Undefined"
    by (simp add: fakeFileHandler_def file1_def)
  have d': "(fakeFileHandler file1)\<lparr>p_memoKey := Undefined\<rparr> = fakeFileHandler file1"
    by (simp add: fakeFileHandler_def file1_def)
  have d'': "file1\<lparr>p_memoKey := Undefined\<rparr> = file1"
    by (simp add: file1_def)
  have v: "verbose (options ?tp) = Some True \<longrightarrow> path (fakeFileHandler file1) \<noteq> None"
    by (simp add: memoize_verbose[OF i(1)])
  have p: "path file2 = Some ''/test/fixtures/in/file2.txt''"
    by (simp add: file2_def)
  note c = C3_falsy_key_memoized[OF k g t files_are_buffers(1,2) m l d v files_are_buffers(3,4) p, of H]
  have w: "task_writes (trace (snd (each H file1 ?tp))) = [file1]"
    using c by (simp add: memoize_fields(4) d'')
  show "let tp = ?tp; tp2 = snd (task_emit_data (fakeFileHandler file1) (snd (each H file1 tp)))
        in fst (p_getFileKey H file1 tp) = Inr Undefined
           \<and> map_get (p_memo tp2) Undefined = Some [fakeFileHandler file1]
           \<and> task_writes (trace (snd (each H file1 tp))) = [file1]
           \<and> task_writes (trace (snd (each H file2 tp2))) = task_writes (trace tp2)"
    using c w by (simp add: d' clone_def Let_def)
qed




text \<open>
  C5. Two submissions with the same derived key against the same memo: the first, a
  miss, is written to the task once, and the output the task emits under its tag is
  remembered; the second, on any proxy that holds this memo, is not written to the
  task. What it delivers is the copy of the cached entry with path and base set to
  those of the second item, every other field (the content of the first run's output
  among them) that of the entry, and the restored count goes up by one. (The key is
  not in the memo before, no listener of an earlier item waits for it, and the second
  item has a path.)
\<close>

theorem C5_same_key_twice:
  assumes "\<not> isNull f1" "\<not> isStream f1"
      and "fst (p_getFileKey H f1 tpA) = Inr k"
      and "map_get (p_memo tpA) k = None"
      and "\<forall>l \<in> set (listeners (task tpA)). \<forall>s. l \<noteq> OnData s k"
      and "p_memoKey datum = k"
      and "verbose (options tpA) = Some True \<longrightarrow> path datum \<noteq> None"
      and "p_memo tpB = p_memo (snd (task_emit_data datum (snd (each H f1 tpA))))"
      and "\<not> isNull f2" "\<not> isStream f2"
      and "fst (p_getFileKey H f2 tpB) = Inr k"
      and "path f2 = Some p"
      and "verbose (options tpB) = Some True \<longrightarrow> path datum \<noteq> None"
  shows "task_writes (trace (snd (task_emit_data datum (snd (each H f1 tpA)))))
           = task_writes (trace tpA) @ [f1\<lparr>p_memoKey := k\<rparr>]
       \<and> map_get (p_memo tpB) k = Some [clone (datum\<lparr>p_memoKey := Undefined\<rparr>)]
       \<and> task_writes (trace (snd (each H f2 tpB))) = task_writes (trace tpB)
       \<and> trace (snd (each H f2 tpB)) =
           trace tpB @ [KeyCall f2] @
             (if verbose (options tpB) = Some True
              then [Log (ReportRestored (datum\<lparr>p_memoKey := Undefined\<rparr>) f2)] else []) @
             [Push (clone (datum\<lparr>p_memoKey := Undefined\<rparr>)\<lparr>path := path f2, base := base f2\<rparr>),
              Next None None]
       \<and> contents (clone (datum\<lparr>p_memoKey := Undefined\<rparr>)\<lparr>path := path f2, base := base f2\<rparr>)
           = contents datum
       \<and> p_restoredCount (snd (each H f2 tpB)) = Suc (p_restoredCount tpB)"
proof -
  let ?d = "datum\<lparr>p_memoKey := Undefined\<rparr>"
  note a = miss_then_data[OF assms(1-7)]
  have m: "map_of (p_memo tpA) k = None" using assms(4) by (simp add: map_get_def)
  have g: "map_get (p_memo tpB) k = Some [?d]"
    using assms(8) map_get_append_new[OF m] by (simp add: a)
  have r: "restore_memoFile [?d] f2 = Inr ?d"
    by (simp add: restore_memoFile_def)
  have v: "verbose (options tpB) = Some True \<longrightarrow> path ?d \<noteq> None"
    using assms(13) by simp
  note b = each_hit[OF assms(9,10,11) g r assms(12) v]
  show ?thesis
    using g assms(12) by (simp add: a b clone_def)
qed

theorem C5_same_key_twice_witness:
  "\<forall>H. (let tpA = memoize empty_options;
            tpA2 = snd (task_emit_data (produced H) (snd (each H file1 tpA)));
            tpB = TaskProxy (task tpA2)
                    (plugin_options (defaultOptions\<lparr>memo := Some (p_memo tpA2)\<rparr>) (task tpA2) empty_options)
        in task_writes (trace tpA2) = [file1\<lparr>p_memoKey := key1 H\<rparr>]
           \<and> trace (snd (each H file2 tpB)) =
               [KeyCall file2,
                Push ((fakeFileHandler file1)\<lparr>path := path file2, base := base file2\<rparr>),
                Next None None]
           \<and> p_restoredCount (snd (each H file2 tpB)) = 1)"
proof
  fix H
  let ?tpA = "memoize empty_options"
  let ?tpA2 = "snd (task_emit_data (produced H) (snd (each H file1 ?tpA)))"
  let ?tpB = "TaskProxy (task ?tpA2)
                (plugin_options (defaultOptions\<lparr>memo := Some (p_memo ?tpA2)\<rparr>) (task ?tpA2) empty_options)"
  have i: "key empty_options = None" "verbose empty_options = None" "memo empty_options = None"
    by (simp_all add: empty_options_def)
  have k1: "fst (p_getFileKey H file1 ?tpA) = Inr (key1 H)"
    by (rule default_key_file1[OF memoize_default_key[OF i(1)]])
  have m: "map_get (p_memo ?tpA) (key1 H) = None"
    by (simp add: memoize_fields i map_get_def)
  have l: "\<forall>l \<in> set (listeners (task ?tpA)). \<forall>s. l \<noteq> OnData s (key1 H)"
    by (simp add: memoize_fields)
  have v: "verbose (options ?tpA) = Some True \<longrightarrow> path (produced H) \<noteq> None"
    by (simp add: memoize_verbose[OF i(2)])
  have c1: "task ?tpA2 = task (snd (each H file1 ?tpA))"
    by (simp add: miss_then_data[OF files_are_buffers(1,2) k1 m l produced_fields(1) v])
  have c2: "cacheable (task (snd (each H file1 ?tpA))) = cacheable (task ?tpA)"
    by (simp add: each_miss[OF files_are_buffers(1,2) k1 m])
  have c3: "cacheable (task ?tpA) = None"
    by (simp add: memoize_def TaskProxy_def fakeTask_def p_patchTask_def Let_def)
  have c: "cacheable (task ?tpA2) = None"
    using c1 c2 c3 by simp
  have oB: "key (options ?tpB) = Some defaultKey" "verbose (options ?tpB) = Some False"
    using c by (simp_all add: TaskProxy_def plugin_options_def spread_def defaultOptions_def
        empty_options_def Let_def)
  have mB: "p_memo ?tpB = p_memo ?tpA2"
    using c by (simp add: TaskProxy_def plugin_options_def spread_def defaultOptions_def
        empty_options_def Let_def)
  have fB: "trace ?tpB = []" "p_restoredCount ?tpB = 0"
    by (simp_all add: TaskProxy_def Let_def)
  have k2: "fst (p_getFileKey H file2 ?tpB) = Inr (key1 H)"
    by (rule default_key_file2[OF oB(1)])
  have vB: "verbose (options ?tpB) = Some True \<longrightarrow> path (produced H) \<noteq> None"
    by (simp add: oB(2))
  have p: "path file2 = Some ''/test/fixtures/in/file2.txt''"
    by (simp add: file2_def)
  note t = C5_same_key_twice[OF files_are_buffers(1,2) k1 m l produced_fields(1) v mB
      files_are_buffers(3,4) k2 p vB]
  show "let tpA = ?tpA;
            tpA2 = snd (task_emit_data (produced H) (snd (each H file1 tpA)));
            tpB = TaskProxy (task tpA2)
                    (plugin_options (defaultOptions\<lparr>memo := Some (p_memo tpA2)\<rparr>) (task tpA2) empty_options)
        in task_writes (trace tpA2) = [file1\<lparr>p_memoKey := key1 H\<rparr>]
           \<and> trace (snd (each H file2 tpB)) =
               [KeyCall file2,
                Push ((fakeFileHandler file1)\<lparr>path := path file2, base := base file2\<rparr>),
                Next None None]
           \<and> p_restoredCount (snd (each H file2 tpB)) = 1"
    using t unfolding Let_def
    by (simp add: fB oB(2) memoize_fields(4) produced_fields(2) clone_def)
qed

text \<open>
  C6. A lookup whose key maps to a cell of more than one entry restores from the
  first entry whose basename is the basename of the incoming item, and from the first
  entry of the cell when no basename matches; a cell of exactly one entry is restored
  from that entry, whatever its basename. The restored file is the copy of the chosen
  entry with path and base set to those of the incoming item. (The incoming item has a
  path; where basenames are read, the entries have one.)
\<close>

theorem C6_restore_by_basename:
  assumes "map_get (p_memo tp) k = Some cell"
      and "path inputFile = Some p"
  shows "(\<forall>el. cell = [el] \<and> (verbose (options tp) = Some True \<longrightarrow> path el \<noteq> None) \<longrightarrow>
            fst (p_restore k inputFile tp) =
              Inr (Some (clone el\<lparr>path := Some p, base := base inputFile\<rparr>)))
       \<and> (length cell > 1 \<and> (\<forall>el \<in> set cell. path el \<noteq> None) \<longrightarrow>
            fst (p_restore k inputFile tp) =
              Inr (Some (clone
                 (case find (\<lambda>el. basename el = basename inputFile) cell of
                    Some el \<Rightarrow> el
                  | None \<Rightarrow> cell ! 0)\<lparr>path := Some p, base := base inputFile\<rparr>)))"
proof (intro conjI allI impI)
  fix el
  assume a: "cell = [el] \<and> (verbose (options tp) = Some True \<longrightarrow> path el \<noteq> None)"
  then have "restore_memoFile cell inputFile = Inr el"
    by (simp add: restore_memoFile_def)
  from p_restore_result(1)[OF assms(1) this assms(2)] a
  show "fst (p_restore k inputFile tp) = Inr (Some (clone el\<lparr>path := Some p, base := base inputFile\<rparr>))"
    by (simp add: clone_def)
next
  assume a: "length cell > 1 \<and> (\<forall>el \<in> set cell. path el \<noteq> None)"
  let ?pick = "case find (\<lambda>el. basename el = basename inputFile) cell of
                 Some el \<Rightarrow> el | None \<Rightarrow> cell ! 0"
  have same: "find (\<lambda>el. basename el = basename inputFile) cell
                = find (\<lambda>el. path_basename (the (path el)) = path_basename p) cell"
    using a assms(2) by (intro find_cong) (auto simp: basename_def)
  have r: "restore_memoFile cell inputFile = Inr ?pick"
    using a find_basename_paths[OF assms(2), of cell] same
    by (cases cell) (auto simp: restore_memoFile_def split: option.splits)
  have "?pick \<in> set cell"
    using a by (cases cell) (auto split: option.splits dest: find_Some_iff[THEN iffD1] simp: in_set_conv_nth)
  then have "path ?pick \<noteq> None" using a by blast
  from p_restore_result(1)[OF assms(1) r assms(2)] this
  show "fst (p_restore k inputFile tp) = Inr (Some (clone ?pick\<lparr>path := Some p, base := base inputFile\<rparr>))"
    by (simp add: clone_def)
qed


theorem C6_restore_by_basename_witness:
  "map_get (p_memo ex_two) (Str ''k'') = Some [fakeFileHandler file1, fakeFileHandler file2]
   \<and> path file2 = Some ''/test/fixtures/in/file2.txt''
   \<and> fst (p_restore (Str ''k'') file2 ex_two) =
       Inr (Some (clone (fakeFileHandler file2)
                    \<lparr>path := Some ''/test/fixtures/in/file2.txt'', base := base file2\<rparr>))"
proof -
  have a: "map_get (p_memo ex_two) (Str ''k'') = Some [fakeFileHandler file1, fakeFileHandler file2]"
    by (simp add: ex_defs map_get_def Let_def)
  have b: "path file2 = Some ''/test/fixtures/in/file2.txt''"
    by (simp add: file2_def)
  have c: "find (\<lambda>el. basename el = basename file2) [fakeFileHandler file1, fakeFileHandler file2]
             = Some (fakeFileHandler file2)"
    by (simp add: ex_defs basename_def path_basename_def)
  show ?thesis
    using a b c C6_restore_by_basename[OF a b]
    by (simp add: fakeFileHandler_def file1_def file2_def)
qed

text \<open>
  C7. An item whose payload is a stream gets exactly one effect, the call of \<^verbatim>\<open>next\<close>
  with the error \<^verbatim>\<open>Cannot operate on stream sources\<close>: nothing is written to the task,
  the key getter is not called, and the state of the proxy is otherwise unchanged.
\<close>

theorem C7_stream_rejected:
  "isStream f \<Longrightarrow>
     each H f tp =
       (None, tp\<lparr>trace := trace tp @
          [Next (Some (PluginError ''gulp-memoize'' ''Cannot operate on stream sources'')) None]\<rparr>)"
  by (simp add: each_def isStream_def isNull_def out_def)

theorem C7_stream_rejected_witness:
  "\<forall>H. isStream streamFile \<and>
     (case plugin defaultOptions (Some fakeTask) empty_options of
        Inr tp \<Rightarrow>
          snd (each H streamFile tp) =
            tp\<lparr>trace := [Next (Some (PluginError ''gulp-memoize'' ''Cannot operate on stream sources'')) None]\<rparr>
      | Inl e \<Rightarrow> False)"
proof -
  have s: "isStream streamFile" by (simp add: isStream_def streamFile_def)
  show ?thesis
    using s C7_stream_rejected[OF s]
    by (simp add: plugin_def TaskProxy_def Let_def)
qed

text \<open>
  C8. On end of input, a task with a \<^verbatim>\<open>_flush\<close> has it called and nothing else
  happens until the task calls back; the callback, and \<^verbatim>\<open>flush\<close> itself on a task
  without \<^verbatim>\<open>_flush\<close>, run \<^verbatim>\<open>_flush\<close> and call \<^verbatim>\<open>next\<close> after it: the trace is the total
  reported, then every pending remover called, in order, then the memo cleared,
  exactly when \<^verbatim>\<open>clearMemoOnFlush\<close> is set (which it is by default), and \<^verbatim>\<open>next\<close> last,
  called on the state the cleanup leaves. In that state no remover is pending, the
  signals emitters of the removers have no listener and, when the own listeners of
  the task are distinct and its ceiling covers the pending routes (as they are in
  every state a proxy reaches, \<open>flush_pre_reachable\<close>), no remover has thrown, the
  listeners of every pending route are off the task and the ceiling is lower by
  three a route. When \<^verbatim>\<open>_flush\<close> throws, \<^verbatim>\<open>next\<close> gets the exception, or is not called
  at all by the callback.
\<close>

theorem C8_flush_order:
  "(has_flush (task tp) \<longrightarrow> flush tp = tp\<lparr>trace := trace tp @ [TaskFlush]\<rparr>)
   \<and> (fst (p_flush tp) = None \<longrightarrow>
        flush_callback err data tp =
          (None, (snd (p_flush tp))\<lparr>trace := trace (snd (p_flush tp)) @ [Next err data]\<rparr>)
        \<and> (\<not> has_flush (task tp) \<longrightarrow>
             flush tp = (snd (p_flush tp))\<lparr>trace := trace (snd (p_flush tp)) @ [Next None None]\<rparr>)
        \<and> trace (snd (p_flush tp)) =
            trace tp @ [Log (ReportTotal (p_restoredCount tp) (p_memoBytes tp))]
              @ map Remove (p_listenerRemovers tp)
              @ (if clearMemoOnFlush (options tp) = Some True then [MemoClear] else [])
        \<and> trace (snd (flush_callback err data tp)) =
            trace tp @ [Log (ReportTotal (p_restoredCount tp) (p_memoBytes tp))]
              @ map Remove (p_listenerRemovers tp)
              @ (if clearMemoOnFlush (options tp) = Some True then [MemoClear] else [])
              @ [Next err data]
        \<and> (\<not> has_flush (task tp) \<longrightarrow>
             trace (flush tp) =
               trace tp @ [Log (ReportTotal (p_restoredCount tp) (p_memoBytes tp))]
                 @ map Remove (p_listenerRemovers tp)
                 @ (if clearMemoOnFlush (options tp) = Some True then [MemoClear] else [])
                 @ [Next None None])
        \<and> p_listenerRemovers (snd (p_flush tp)) = []
        \<and> (\<forall>r \<in> set (p_listenerRemovers tp). emitter (remover_sid r) (snd (p_flush tp)) = [])
        \<and> p_memo (snd (p_flush tp)) =
            (if clearMemoOnFlush (options tp) = Some True then [] else p_memo tp))
   \<and> (distinct (filter (\<lambda>l. \<not> is_foreign l) (listeners (task tp)))
        \<and> (routes (p_listenerRemovers tp) = 0
            \<or> (\<exists>n. p_maxListeners (task tp) = Some (n + 3 * routes (p_listenerRemovers tp)))) \<longrightarrow>
        fst (p_flush tp) = None
        \<and> listeners (task (snd (p_flush tp))) =
            filter (\<lambda>l. l \<notin> set (concat (map route_listeners (p_listenerRemovers tp))))
              (listeners (task tp))
        \<and> (routes (p_listenerRemovers tp) = 0 \<longrightarrow>
             p_maxListeners (task (snd (p_flush tp))) = p_maxListeners (task tp))
        \<and> (\<forall>n. p_maxListeners (task tp) = Some (n + 3 * routes (p_listenerRemovers tp)) \<longrightarrow>
             p_maxListeners (task (snd (p_flush tp))) = Some n))
   \<and> (\<forall>e. fst (p_flush tp) = Some e \<longrightarrow>
        flush_callback err data tp = (Some e, snd (p_flush tp))
        \<and> (\<not> has_flush (task tp) \<longrightarrow>
             flush tp = (snd (p_flush tp))\<lparr>trace := trace (snd (p_flush tp)) @ [Next (Some e) None]\<rparr>))
   \<and> clearMemoOnFlush defaultOptions = Some True"
proof -
  let ?log = "trace tp @ [Log (ReportTotal (p_restoredCount tp) (p_memoBytes tp))]
      @ map Remove (p_listenerRemovers tp)
      @ (if clearMemoOnFlush (options tp) = Some True then [MemoClear] else [])"
  have A: "has_flush (task tp) \<longrightarrow> flush tp = tp\<lparr>trace := trace tp @ [TaskFlush]\<rparr>"
    by (simp add: flush_def out_def)
  have B: "flush_callback err data tp =
          (None, (snd (p_flush tp))\<lparr>trace := trace (snd (p_flush tp)) @ [Next err data]\<rparr>)
        \<and> (\<not> has_flush (task tp) \<longrightarrow>
             flush tp = (snd (p_flush tp))\<lparr>trace := trace (snd (p_flush tp)) @ [Next None None]\<rparr>)
        \<and> trace (snd (p_flush tp)) = ?log
        \<and> trace (snd (flush_callback err data tp)) = ?log @ [Next err data]
        \<and> (\<not> has_flush (task tp) \<longrightarrow> trace (flush tp) = ?log @ [Next None None])
        \<and> p_listenerRemovers (snd (p_flush tp)) = []
        \<and> (\<forall>r \<in> set (p_listenerRemovers tp). emitter (remover_sid r) (snd (p_flush tp)) = [])
        \<and> p_memo (snd (p_flush tp)) =
            (if clearMemoOnFlush (options tp) = Some True then [] else p_memo tp)"
    if a: "fst (p_flush tp) = None"
  proof -
    have b1: "flush_callback err data tp =
          (None, (snd (p_flush tp))\<lparr>trace := trace (snd (p_flush tp)) @ [Next err data]\<rparr>)"
      using a by (cases "p_flush tp") (simp add: flush_callback_def out_def)
    have b2: "\<not> has_flush (task tp) \<longrightarrow>
             flush tp = (snd (p_flush tp))\<lparr>trace := trace (snd (p_flush tp)) @ [Next None None]\<rparr>"
      using a by (cases "p_flush tp") (simp add: flush_def out_def)
    have b3: "trace (snd (p_flush tp)) = ?log"
      by (rule p_flush_ok(3)[OF a])
    have b4: "trace (snd (flush_callback err data tp)) = ?log @ [Next err data]"
      by (simp add: b1 b3)
    have b5: "\<not> has_flush (task tp) \<longrightarrow> trace (flush tp) = ?log @ [Next None None]"
      using b2 by (simp add: b3)
    show ?thesis
      using b1 b2 b3 b4 b5 p_flush_ok(1,2)[OF a] p_flush_signals[OF a] by blast
  qed
  have C: "fst (p_flush tp) = None
        \<and> listeners (task (snd (p_flush tp))) =
            filter (\<lambda>l. l \<notin> set (concat (map route_listeners (p_listenerRemovers tp))))
              (listeners (task tp))
        \<and> (routes (p_listenerRemovers tp) = 0 \<longrightarrow>
             p_maxListeners (task (snd (p_flush tp))) = p_maxListeners (task tp))
        \<and> (\<forall>n. p_maxListeners (task tp) = Some (n + 3 * routes (p_listenerRemovers tp)) \<longrightarrow>
             p_maxListeners (task (snd (p_flush tp))) = Some n)"
    if d: "distinct (filter (\<lambda>l. \<not> is_foreign l) (listeners (task tp)))"
      and c: "routes (p_listenerRemovers tp) = 0
            \<or> (\<exists>n. p_maxListeners (task tp) = Some (n + 3 * routes (p_listenerRemovers tp)))"
    using p_flush_cleanup[OF d c] by blast
  have D: "flush_callback err data tp = (Some e, snd (p_flush tp))
        \<and> (\<not> has_flush (task tp) \<longrightarrow>
             flush tp = (snd (p_flush tp))\<lparr>trace := trace (snd (p_flush tp)) @ [Next (Some e) None]\<rparr>)"
    if a: "fst (p_flush tp) = Some e" for e
    using a by (cases "p_flush tp") (simp add: flush_callback_def flush_def out_def)
  have E: "clearMemoOnFlush defaultOptions = Some True"
    by (simp add: defaultOptions_def)
  show ?thesis
    apply (intro conjI)
        apply (rule A)
       apply (rule impI, drule B, simp)
      apply (rule impI, erule conjE, rule C, assumption, assumption)
     apply (intro allI impI conjI)
      apply (drule D, simp)
     apply (drule D, simp)
    apply (rule E)
    done
qed

theorem C8_flush_order_witness:
  "\<forall>H. (let tp = run H [Submit file1, TaskData (produced H), TaskTransformed, Submit file2]
                    (TaskProxy fakeTask (plugin_options defaultOptions fakeTask empty_options));
            keep = tp\<lparr>options := (options tp)\<lparr>clearMemoOnFlush := Some False\<rparr>\<rparr>;
            tf = tp\<lparr>task := (task tp)\<lparr>has_flush := True\<rparr>\<rparr>;
            low = tp\<lparr>task := (task tp)\<lparr>p_maxListeners := Some 1\<rparr>\<rparr>
        in \<not> has_flush (task tp)
           \<and> distinct (filter (\<lambda>l. \<not> is_foreign l) (listeners (task tp)))
           \<and> routes (p_listenerRemovers tp) = 1
           \<and> p_maxListeners (task tp) = Some 3
           \<and> p_listenerRemovers tp = [DetachRoute 0 (key1 H), RemoveSignals 1]
           \<and> listeners (task tp) = [Foreign 0, OnData 0 (key1 H), OnError 0]
           \<and> p_memo tp = [(key1 H, [fakeFileHandler file1])]
           \<and> trace (flush tp) =
               trace tp @ [Log (ReportTotal 1 31), Remove (DetachRoute 0 (key1 H)),
                           Remove (RemoveSignals 1), MemoClear, Next None None]
           \<and> listeners (task (flush tp)) = [Foreign 0]
           \<and> p_maxListeners (task (flush tp)) = Some 0
           \<and> emitter 0 (flush tp) = []
           \<and> emitter 1 (flush tp) = []
           \<and> p_listenerRemovers (flush tp) = []
           \<and> p_memo (flush tp) = []
           \<and> trace (flush keep) =
               trace tp @ [Log (ReportTotal 1 31), Remove (DetachRoute 0 (key1 H)),
                           Remove (RemoveSignals 1), Next None None]
           \<and> p_memo (flush keep) = p_memo tp
           \<and> flush tf = tf\<lparr>trace := trace tp @ [TaskFlush]\<rparr>
           \<and> trace (snd (flush_callback None None (flush tf))) =
               trace tp @ [TaskFlush, Log (ReportTotal 1 31), Remove (DetachRoute 0 (key1 H)),
                           Remove (RemoveSignals 1), MemoClear, Next None None]
           \<and> listeners (task (snd (flush_callback None None (flush tf)))) = [Foreign 0]
           \<and> fst (p_flush low) = Some (RangeError ''The value of n is out of range.'')
           \<and> trace (flush low) =
               trace tp @ [Log (ReportTotal 1 31), Remove (DetachRoute 0 (key1 H)),
                           Next (Some (RangeError ''The value of n is out of range.'')) None]
           \<and> p_memo (flush low) = p_memo tp
           \<and> fst (flush_callback None None low) = Some (RangeError ''The value of n is out of range.'')
           \<and> trace (snd (flush_callback None None low)) =
               trace tp @ [Log (ReportTotal 1 31), Remove (DetachRoute 0 (key1 H))])"
proof
  fix H
  define tp where "tp = run H [Submit file1, TaskData (produced H), TaskTransformed, Submit file2]
               (TaskProxy fakeTask (plugin_options defaultOptions fakeTask empty_options))"
  define keep where "keep = tp\<lparr>options := (options tp)\<lparr>clearMemoOnFlush := Some False\<rparr>\<rparr>"
  define tf where "tf = tp\<lparr>task := (task tp)\<lparr>has_flush := True\<rparr>\<rparr>"
  define tf1 where "tf1 = tf\<lparr>trace := trace tp @ [TaskFlush]\<rparr>"
  define low where "low = tp\<lparr>task := (task tp)\<lparr>p_maxListeners := Some 1\<rparr>\<rparr>"
  have e: "p_listenerRemovers tp = [DetachRoute 0 (key1 H), RemoveSignals 1]"
    "listeners (task tp) = [Foreign 0, OnData 0 (key1 H), OnError 0]"
    "p_maxListeners (task tp) = Some 3"
    "\<not> has_flush (task tp)"
    "p_memo tp = [(key1 H, [fakeFileHandler file1])]"
    "p_restoredCount tp = 1" "p_memoBytes tp = 31"
    "clearMemoOnFlush (options tp) = Some True"
    by (simp_all add: tp_def ex_defs ex_defs2 step_defs Let_def)
  have em: "emitter sid (x\<lparr>trace := es\<rparr>) = emitter sid x" for sid x es
    by (simp add: emitter_def)
  have r: "routes (p_listenerRemovers tp) = 1"
    by (simp add: e routes_def)
  have d: "distinct (filter (\<lambda>l. \<not> is_foreign l) (listeners (task tp)))"
    by (simp add: e is_foreign_def)
  have c: "routes (p_listenerRemovers tp) = 0
           \<or> (\<exists>n. p_maxListeners (task tp) = Some (n + 3 * routes (p_listenerRemovers tp)))"
    by (simp add: e r)
  have k: "p_listenerRemovers keep = p_listenerRemovers tp" "task keep = task tp"
    "p_memo keep = p_memo tp" "p_restoredCount keep = p_restoredCount tp"
    "p_memoBytes keep = p_memoBytes tp" "trace keep = trace tp"
    "clearMemoOnFlush (options keep) = Some False"
    by (simp_all add: keep_def)
  have t: "p_listenerRemovers tf1 = p_listenerRemovers tp"
    "listeners (task tf1) = listeners (task tp)"
    "p_maxListeners (task tf1) = p_maxListeners (task tp)"
    "p_memo tf1 = p_memo tp" "p_restoredCount tf1 = p_restoredCount tp"
    "p_memoBytes tf1 = p_memoBytes tp" "trace tf1 = trace tp @ [TaskFlush]"
    "options tf1 = options tp" "has_flush (task tf)" "trace tf = trace tp"
    by (simp_all add: tf1_def tf_def)
  note c1 = C8_flush_order[where tp=tp and err=None and data=None]
  note c2 = C8_flush_order[where tp=keep and err=None and data=None]
  note c3 = C8_flush_order[where tp=tf and err=None and data=None]
  note c4 = C8_flush_order[where tp=tf1 and err=None and data=None]
  have p1: "fst (p_flush tp) = None" "listeners (task (snd (p_flush tp))) = [Foreign 0]"
    "p_maxListeners (task (snd (p_flush tp))) = Some 0"
    using c1 d c by (simp_all add: e r)
  have f1: "flush tp = (snd (p_flush tp))\<lparr>trace := trace (snd (p_flush tp)) @ [Next None None]\<rparr>"
    using c1 p1(1) e(4) by blast
  have q1: "trace (flush tp) =
               trace tp @ [Log (ReportTotal 1 31), Remove (DetachRoute 0 (key1 H)),
                           Remove (RemoveSignals 1), MemoClear, Next None None]"
    "p_listenerRemovers (snd (p_flush tp)) = []" "p_memo (snd (p_flush tp)) = []"
    "emitter 0 (snd (p_flush tp)) = []" "emitter 1 (snd (p_flush tp)) = []"
    using c1 p1(1) by (simp_all add: e)
  have g1: "listeners (task (flush tp)) = [Foreign 0]" "p_maxListeners (task (flush tp)) = Some 0"
    "emitter 0 (flush tp) = []" "emitter 1 (flush tp) = []"
    "p_listenerRemovers (flush tp) = []" "p_memo (flush tp) = []"
    using p1 q1 by (simp_all add: f1 em)
  have p2: "fst (p_flush keep) = None"
    using c2 d c by (simp add: k)
  have f2: "flush keep = (snd (p_flush keep))\<lparr>trace := trace (snd (p_flush keep)) @ [Next None None]\<rparr>"
    using c2 p2 e(4) k(2) by simp
  have q2: "trace (flush keep) =
               trace tp @ [Log (ReportTotal 1 31), Remove (DetachRoute 0 (key1 H)),
                           Remove (RemoveSignals 1), Next None None]"
    "p_memo (snd (p_flush keep)) = p_memo tp"
    using c2 p2 e(4) by (simp_all add: k e)
  have g2: "p_memo (flush keep) = p_memo tp"
    using q2 by (simp add: f2)
  have f3: "flush tf = tf1"
    using c3 t(9,10) by (simp add: tf1_def)
  have p4: "fst (p_flush tf1) = None" "listeners (task (snd (p_flush tf1))) = [Foreign 0]"
    using c4 d c by (simp_all add: t e r)
  have q4: "trace (snd (flush_callback None None tf1)) =
               trace tp @ [TaskFlush, Log (ReportTotal 1 31), Remove (DetachRoute 0 (key1 H)),
                           Remove (RemoveSignals 1), MemoClear, Next None None]"
    "flush_callback None None tf1 =
       (None, (snd (p_flush tf1))\<lparr>trace := trace (snd (p_flush tf1)) @ [Next None None]\<rparr>)"
    using c4 p4(1) by (simp_all add: t e)
  have g4: "listeners (task (snd (flush_callback None None tf1))) = [Foreign 0]"
    using p4 by (simp add: q4(2))
  have p5: "fst (p_flush low) = Some (RangeError ''The value of n is out of range.'')"
    "trace (snd (p_flush low)) =
       trace tp @ [Log (ReportTotal 1 31), Remove (DetachRoute 0 (key1 H))]"
    "p_memo (snd (p_flush low)) = p_memo tp"
    "\<not> has_flush (task low)"
    unfolding p_flush_def p_reportTotal_def out_def
    by (simp_all add: low_def e run_remover_def removeListener_def listenersCount_def out_def Let_def)
  note c5 = C8_flush_order[where tp=low and err=None and data=None]
  have f5: "flush_callback None None low =
       (Some (RangeError ''The value of n is out of range.''), snd (p_flush low))"
    "flush low = (snd (p_flush low))\<lparr>trace := trace (snd (p_flush low))
       @ [Next (Some (RangeError ''The value of n is out of range.'')) None]\<rparr>"
    using c5 p5(1,4) by blast+
  have g5: "trace (flush low) =
               trace tp @ [Log (ReportTotal 1 31), Remove (DetachRoute 0 (key1 H)),
                           Next (Some (RangeError ''The value of n is out of range.'')) None]"
    "p_memo (flush low) = p_memo tp"
    "fst (flush_callback None None low) = Some (RangeError ''The value of n is out of range.'')"
    "trace (snd (flush_callback None None low)) =
               trace tp @ [Log (ReportTotal 1 31), Remove (DetachRoute 0 (key1 H))]"
    using p5 by (simp_all add: f5)
  show "let tp = run H [Submit file1, TaskData (produced H), TaskTransformed, Submit file2]
                    (TaskProxy fakeTask (plugin_options defaultOptions fakeTask empty_options));
            keep = tp\<lparr>options := (options tp)\<lparr>clearMemoOnFlush := Some False\<rparr>\<rparr>;
            tf = tp\<lparr>task := (task tp)\<lparr>has_flush := True\<rparr>\<rparr>;
            low = tp\<lparr>task := (task tp)\<lparr>p_maxListeners := Some 1\<rparr>\<rparr>
        in \<not> has_flush (task tp)
           \<and> distinct (filter (\<lambda>l. \<not> is_foreign l) (listeners (task tp)))
           \<and> routes (p_listenerRemovers tp) = 1
           \<and> p_maxListeners (task tp) = Some 3
           \<and> p_listenerRemovers tp = [DetachRoute 0 (key1 H), RemoveSignals 1]
           \<and> listeners (task tp) = [Foreign 0, OnData 0 (key1 H), OnError 0]
           \<and> p_memo tp = [(key1 H, [fakeFileHandler file1])]
           \<and> trace (flush tp) =
               trace tp @ [Log (ReportTotal 1 31), Remove (DetachRoute 0 (key1 H)),
                           Remove (RemoveSignals 1), MemoClear, Next None None]
           \<and> listeners (task (flush tp)) = [Foreign 0]
           \<and> p_maxListeners (task (flush tp)) = Some 0
           \<and> emitter 0 (flush tp) = []
           \<and> emitter 1 (flush tp) = []
           \<and> p_listenerRemovers (flush tp) = []
           \<and> p_memo (flush tp) = []
           \<and> trace (flush keep) =
               trace tp @ [Log (ReportTotal 1 31), Remove (DetachRoute 0 (key1 H)),
                           Remove (RemoveSignals 1), Next None None]
           \<and> p_memo (flush keep) = p_memo tp
           \<and> flush tf = tf\<lparr>trace := trace tp @ [TaskFlush]\<rparr>
           \<and> trace (snd (flush_callback None None (flush tf))) =
               trace tp @ [TaskFlush, Log (ReportTotal 1 31), Remove (DetachRoute 0 (key1 H)),
                           Remove (RemoveSignals 1), MemoClear, Next None None]
           \<and> listeners (task (snd (flush_callback None None (flush tf)))) = [Foreign 0]
           \<and> fst (p_flush low) = Some (RangeError ''The value of n is out of range.'')
           \<and> trace (flush low) =
               trace tp @ [Log (ReportTotal 1 31), Remove (DetachRoute 0 (key1 H)),
                           Next (Some (RangeError ''The value of n is out of range.'')) None]
           \<and> p_memo (flush low) = p_memo tp
           \<and> fst (flush_callback None None low) = Some (RangeError ''The value of n is out of range.'')
           \<and> trace (snd (flush_callback None None low)) =
               trace tp @ [Log (ReportTotal 1 31), Remove (DetachRoute 0 (key1 H))]"
    unfolding Let_def tp_def[symmetric] keep_def[symmetric] tf_def[symmetric] low_def[symmetric]
    using e(1-5) r d q1(1) g1 q2(1) g2 f3 q4(1) g4 p5(1) g5
    by (simp add: f3 tf1_def)
qed

text \<open>
  C9. The options of a proxy are the caller's options over the task's \<^verbatim>\<open>cacheable\<close>
  over the defaults: an option the caller gives is the one used; one only the task
  gives is used before the default.
\<close>

theorem C9_options_precedence:
  "plugin defaults (Some t) inputOptions = Inr (TaskProxy t (plugin_options defaults t inputOptions))
   \<and> options (TaskProxy t (plugin_options defaults t inputOptions)) = plugin_options defaults t inputOptions
   \<and> key (plugin_options defaults t inputOptions) =
       (case key inputOptions of Some v \<Rightarrow> Some v
        | None \<Rightarrow> (case key (task_cacheable t) of Some v \<Rightarrow> Some v | None \<Rightarrow> key defaults))
   \<and> verbose (plugin_options defaults t inputOptions) =
       (case verbose inputOptions of Some v \<Rightarrow> Some v
        | None \<Rightarrow> (case verbose (task_cacheable t) of Some v \<Rightarrow> Some v | None \<Rightarrow> verbose defaults))
   \<and> memo (plugin_options defaults t inputOptions) =
       (case memo inputOptions of Some v \<Rightarrow> Some v
        | None \<Rightarrow> (case memo (task_cacheable t) of Some v \<Rightarrow> Some v | None \<Rightarrow> memo defaults))
   \<and> clearMemoOnFlush (plugin_options defaults t inputOptions) =
       (case clearMemoOnFlush inputOptions of Some v \<Rightarrow> Some v
        | None \<Rightarrow> (case clearMemoOnFlush (task_cacheable t) of Some v \<Rightarrow> Some v
                    | None \<Rightarrow> clearMemoOnFlush defaults))"
  by (simp add: plugin_def plugin_options_def spread_def task_cacheable_def TaskProxy_def Let_def
      split: option.splits)


theorem C9_options_precedence_witness:
  "clearMemoOnFlush
     (plugin_options defaultOptions
        (fakeTask\<lparr>cacheable := Some (empty_options\<lparr>clearMemoOnFlush := Some False, verbose := Some True\<rparr>)\<rparr>)
        (empty_options\<lparr>clearMemoOnFlush := Some True\<rparr>)) = Some True
   \<and> verbose
     (plugin_options defaultOptions
        (fakeTask\<lparr>cacheable := Some (empty_options\<lparr>clearMemoOnFlush := Some False, verbose := Some True\<rparr>)\<rparr>)
        (empty_options\<lparr>clearMemoOnFlush := Some True\<rparr>)) = Some True
   \<and> memo
     (plugin_options defaultOptions
        (fakeTask\<lparr>cacheable := Some (empty_options\<lparr>clearMemoOnFlush := Some False, verbose := Some True\<rparr>)\<rparr>)
        (empty_options\<lparr>clearMemoOnFlush := Some True\<rparr>)) = Some []"
  using C9_options_precedence[of defaultOptions
      "fakeTask\<lparr>cacheable := Some (empty_options\<lparr>clearMemoOnFlush := Some False, verbose := Some True\<rparr>)\<rparr>"
      "empty_options\<lparr>clearMemoOnFlush := Some True\<rparr>"]
  by (simp add: task_cacheable_def fakeTask_def empty_options_def defaultOptions_def)

text \<open>
  C10. The constructor sets the byte counter to the sum of the payload lengths of
  every entry of the memo it is given (0 for an entry that is no buffer), every
  \<^verbatim>\<open>_remember\<close> adds the payload length of the copy it stores, and a counter that
  agrees with the memo agrees with it after \<^verbatim>\<open>_remember\<close>.
\<close>

theorem C10_memoBytes_accounting:
  "p_memoBytes (TaskProxy t opts) =
     sum_list (map fileBytes (concat (map_values (case memo opts of Some m \<Rightarrow> m | None \<Rightarrow> []))))
   \<and> fileBytes f = (case contents f of CBuffer b \<Rightarrow> length b | _ \<Rightarrow> 0)
   \<and> p_memoBytes (snd (p_remember k f tp)) = p_memoBytes tp + fileBytes (clone f)
   \<and> (p_memoBytes tp = memo_total (p_memo tp) \<longrightarrow>
        p_memoBytes (snd (p_remember k f tp)) = memo_total (p_memo (snd (p_remember k f tp))))"
  using TaskProxy_memoBytes[of t opts] p_remember_memoBytes[of k f tp] memo_total_remember[of k f tp]
  by (simp add: memo_total_def fileBytes_def isBuffer_def clone_def split: file_contents.splits)

theorem C10_memoBytes_accounting_witness:
  "p_memoBytes ex_two = 62 \<and> p_memoBytes ex_two = memo_total (p_memo ex_two)
   \<and> p_memoBytes (snd (p_remember (Str ''k'') file1 ex_two)) = 84
   \<and> memo_total (p_memo (snd (p_remember (Str ''k'') file1 ex_two))) = 84"
proof -
  have a: "p_memoBytes ex_two = 62"
    by (simp add: ex_defs fileBytes_def isBuffer_def Let_def)
  have b: "memo_total (p_memo ex_two) = 62"
    by (simp add: ex_defs memo_total_def fileBytes_def isBuffer_def Let_def)
  have c: "fileBytes file1 = 22"
    by (simp add: file1_def fileBytes_def isBuffer_def)
  show ?thesis
    using a b c C10_memoBytes_accounting[of fakeTask "options ex_two" file1 "Str ''k''" ex_two]
    by (simp add: clone_def)
qed


end
